theory Spec2Isabelle
  imports Main "HOL-Library.Char_ord" "HOL-Library.List_Lexorder" "HOL-Library.Multiset"
begin

section \<open>The visitors table\<close>

text \<open>
  The server keeps one SQLite table, \<^verbatim>\<open>visitors\<close>, created by \<^verbatim>\<open>initializeDatabase\<close>.
  A row is a record with the table's columns. Timestamps are TEXT values
  (\<^verbatim>\<open>CURRENT_TIMESTAMP\<close> for \<^verbatim>\<open>in_time\<close>, \<^verbatim>\<open>new Date().toISOString()\<close> for the others)
  and are compared as text, byte by byte, which is the order of \<open>string\<close> here.
  The BOOLEAN columns hold 0 or 1 (their DEFAULT is 0 and the only value any statement
  writes is 1); they are \<open>bool\<close>, so that \<^verbatim>\<open>security_confirmed = 1\<close> reads
  \<open>security_confirmed v\<close> and \<^verbatim>\<open>security_confirmed = 0\<close> reads \<open>\<not> security_confirmed v\<close>.
  A nullable column is an \<open>option\<close>, NULL being \<open>None\<close>.
  The column \<^verbatim>\<open>id\<close> is called \<open>visitor_id\<close>, since \<open>id\<close> is the identity function of HOL.
\<close>

type_synonym datetime = string

record visitor =
  visitor_id :: int
  full_name :: string
  contact_number :: string
  department_visiting :: string
  person_to_visit :: string
  in_time :: datetime
  out_time :: "datetime option"
  security_confirmed :: bool
  security_out_time :: "datetime option"
  photo_path :: "string option"
  email_sent :: bool
  approved :: bool
  qr_code_path :: "string option"

text \<open>
  The database: the rows of the table in rowid order, and the counter that
  AUTOINCREMENT keeps in \<^verbatim>\<open>sqlite_sequence\<close> (the largest rowid ever given out).
\<close>

record database =
  visitors :: "visitor list"
  sqlite_sequence :: int

definition empty_db :: database where
  "empty_db = \<lparr>visitors = [], sqlite_sequence = 0\<rparr>"

text \<open>
  \<^verbatim>\<open>INTEGER PRIMARY KEY AUTOINCREMENT\<close>: a new row gets one more than the largest rowid
  that is or ever was in the table.
\<close>

definition next_rowid :: "database \<Rightarrow> int" where
  "next_rowid d = max (sqlite_sequence d) (fold max (map visitor_id (visitors d)) 0) + 1"

subsection \<open>The CHECK constraint on contact_number\<close>

text \<open>
  \<^verbatim>\<open>CONSTRAINT chk_contact CHECK (contact_number GLOB '[0-9]*')\<close>.
  In a GLOB pattern \<^verbatim>\<open>[0-9]\<close> matches one character in that range and \<^verbatim>\<open>*\<close> matches any
  sequence of characters, the empty one too. The pattern is a list of tokens.
\<close>

datatype glob_token = Range char char | Star

fun glob_match :: "glob_token list \<Rightarrow> string \<Rightarrow> bool" where
  "glob_match [] s = (s = [])"
| "glob_match (Range lo hi # ps) [] = False"
| "glob_match (Range lo hi # ps) (c # s) = (lo \<le> c \<and> c \<le> hi \<and> glob_match ps s)"
| "glob_match (Star # ps) [] = glob_match ps []"
| "glob_match (Star # ps) (c # s) = (glob_match ps (c # s) \<or> glob_match (Star # ps) s)"

definition chk_contact :: "string \<Rightarrow> bool" where
  "chk_contact c = glob_match [Range CHR ''0'' CHR ''9'', Star] c"

subsection \<open>The statements the handlers run\<close>

datatype sql_error = SQLITE_CONSTRAINT

text \<open>
  \<^verbatim>\<open>INSERT INTO visitors (full_name, contact_number, department_visiting, person_to_visit,
  photo_path) VALUES (?, ?, ?, ?, ?)\<close>. The other columns take their defaults;
  \<open>now\<close> is the value of \<^verbatim>\<open>CURRENT_TIMESTAMP\<close>. The statement fails, and changes nothing,
  when the CHECK constraint does not hold. On success it gives \<^verbatim>\<open>this.lastID\<close>.
\<close>

definition sql_insert ::
  "datetime \<Rightarrow> string \<Rightarrow> string \<Rightarrow> string \<Rightarrow> string \<Rightarrow> string option \<Rightarrow> database
    \<Rightarrow> sql_error + (int \<times> database)" where
  "sql_insert now fn cn dv pv photo d =
     (if \<not> chk_contact cn then Inl SQLITE_CONSTRAINT
      else
        let i = next_rowid d;
            row = \<lparr>visitor_id = i, full_name = fn, contact_number = cn,
                   department_visiting = dv, person_to_visit = pv, in_time = now,
                   out_time = None, security_confirmed = False, security_out_time = None,
                   photo_path = photo, email_sent = False, approved = False,
                   qr_code_path = None\<rparr>
        in Inr (i, \<lparr>visitors = visitors d @ [row], sqlite_sequence = i\<rparr>))"

text \<open>
  \<^verbatim>\<open>UPDATE visitors SET ... WHERE id = ?\<close>: \<open>f\<close> is the SET clause. The result is
  \<^verbatim>\<open>this.changes\<close>, the number of rows the WHERE clause selected, and the new database.
  The route parameter reaches SQLite as text and is compared with the INTEGER column
  as the integer it denotes; a parameter that denotes none selects no row, as an
  integer that no row has.
\<close>

definition sql_update :: "(visitor \<Rightarrow> visitor) \<Rightarrow> int \<Rightarrow> database \<Rightarrow> nat \<times> database" where
  "sql_update f i d =
     (length (filter (\<lambda>v. visitor_id v = i) (visitors d)),
      d\<lparr>visitors := map (\<lambda>v. if visitor_id v = i then f v else v) (visitors d)\<rparr>)"

text \<open>\<^verbatim>\<open>db.get('SELECT * FROM visitors WHERE id = ?')\<close>: the first row selected, if any.\<close>

definition sql_get :: "int \<Rightarrow> database \<Rightarrow> visitor option" where
  "sql_get i d = find (\<lambda>v. visitor_id v = i) (visitors d)"

text \<open>
  \<^verbatim>\<open>ORDER BY in_time DESC\<close>, as an insertion sort on the text of \<open>in_time\<close>. SQLite leaves
  the order of rows with equal \<open>in_time\<close> open; this sort fixes one, and no theorem below
  depends on which.
\<close>

fun insert_desc :: "visitor \<Rightarrow> visitor list \<Rightarrow> visitor list" where
  "insert_desc v [] = [v]"
| "insert_desc v (w # ws) =
     (if in_time w \<le> in_time v then v # w # ws else w # insert_desc v ws)"

definition order_by_in_time_desc :: "visitor list \<Rightarrow> visitor list" where
  "order_by_in_time_desc vs = foldr insert_desc vs []"

text \<open>
  The aggregates of the statistics query. \<^verbatim>\<open>COUNT(*)\<close> is the number of rows;
  \<^verbatim>\<open>SUM(CASE WHEN c THEN 1 ELSE 0 END)\<close> is NULL on a table with no rows.
  \<^verbatim>\<open>x || 0\<close> in JavaScript turns NULL, and 0, into 0.
\<close>

definition sql_count :: "visitor list \<Rightarrow> int" where
  "sql_count vs = int (length vs)"

definition sql_sum_case :: "(visitor \<Rightarrow> bool) \<Rightarrow> visitor list \<Rightarrow> int option" where
  "sql_sum_case c vs =
     (if vs = [] then None else Some (sum_list (map (\<lambda>v. if c v then 1 else 0) vs)))"

definition or_zero :: "int option \<Rightarrow> int" where
  "or_zero x = (case x of None \<Rightarrow> 0 | Some n \<Rightarrow> if n = 0 then 0 else n)"

section \<open>Requests, responses and effects\<close>

text \<open>
  What a handler does besides changing the table: lines on the console, mails handed to
  the transporter, the QR image written, the signal to the dashboards.
\<close>

datatype recipient = HR | Host

datatype effect =
    ConsoleError string
  | ConsoleLog string
  | SendMail recipient
  | QRToFile string
  | DashboardUpdate

datatype payload =
    JsonError string
  | JsonErrorMessage string string
  | JsonRegistered int string
  | Text string
  | ApprovedPage string int

record response =
  status :: nat
  body :: payload

record result =
  reply :: response
  effects :: "effect list"
  db_after :: database

text \<open>
  The body of a registration request: \<^verbatim>\<open>req.body\<close> after the form has been parsed. A field
  that the form does not have is \<^verbatim>\<open>undefined\<close>, here \<open>None\<close>. The photo, when there is one,
  comes with the MIME type that multer reports as \<^verbatim>\<open>file.mimetype\<close>, its size, and the path under
  \<^verbatim>\<open>uploads/\<close> that the disk storage gives it.
\<close>

record upload =
  mimetype :: string
  file_size :: nat
  file_path :: string

record request =
  body_full_name :: "string option"
  body_contact_number :: "string option"
  body_department_visiting :: "string option"
  body_person_to_visit :: "string option"
  photo :: "upload option"

text \<open>
  What the outside world answers during one registration: the clock of the database,
  whether \<^verbatim>\<open>QRCode.toFile\<close> succeeds or throws, and whether each \<^verbatim>\<open>transporter.sendMail\<close>
  succeeds or throws.
\<close>

record environ =
  current_timestamp :: datetime
  qr_ok :: bool
  hr_mail_ok :: bool
  host_mail_ok :: bool

section \<open>The handlers\<close>

subsection \<open>Upload middleware\<close>

text \<open>
  \<^verbatim>\<open>upload.single('photo')\<close> runs before the registration handler. A file whose MIME
  type does not start with \<^verbatim>\<open>image/\<close>, or that is larger than 5 MB, makes it pass an
  error on, and the request ends in the error-handling middleware.
\<close>

definition fileFilter :: "upload \<Rightarrow> bool" where
  "fileFilter f = (take 6 (mimetype f) = ''image/'')"

definition upload_single :: "upload option \<Rightarrow> string + string option" where
  "upload_single p =
     (case p of
        None \<Rightarrow> Inr None
      | Some f \<Rightarrow>
          if \<not> fileFilter f then Inl ''Only image files are allowed!''
          else if 5 * 1024 * 1024 < file_size f then Inl ''File too large''
          else Inr (Some (file_path f)))"

definition error_middleware :: "string \<Rightarrow> database \<Rightarrow> result" where
  "error_middleware msg d =
     \<lparr>reply = \<lparr>status = 500, body = JsonErrorMessage ''Something went wrong!'' msg\<rparr>,
      effects = [ConsoleError msg],
      db_after = d\<rparr>"

subsection \<open>generateQRCode\<close>

fun decimal :: "nat \<Rightarrow> string" where
  "decimal n =
     (if n < 10 then [''0123456789'' ! n]
      else decimal (n div 10) @ [''0123456789'' ! (n mod 10)])"

declare decimal.simps [simp del]

definition show_int :: "int \<Rightarrow> string" where
  "show_int i = (if i < 0 then CHR ''-'' # decimal (nat (- i)) else decimal (nat i))"

definition generateQRCode :: "environ \<Rightarrow> int \<Rightarrow> string option \<times> effect list" where
  "generateQRCode e visitorId =
     (let qrPath = ''uploads/qr-'' @ show_int visitorId @ ''.png''
      in if qr_ok e then (Some qrPath, [QRToFile qrPath])
         else (None, [QRToFile qrPath, ConsoleError ''QR Code generation failed:'']))"

subsection \<open>sendEmails\<close>

text \<open>
  One \<^verbatim>\<open>try\<close> block: the mail to HR, then the mail to the host, then
  \<^verbatim>\<open>UPDATE visitors SET email_sent = 1 WHERE id = ?\<close>. A \<^verbatim>\<open>sendMail\<close> that throws leaves
  the block; the \<^verbatim>\<open>catch\<close> logs and returns.
\<close>

definition sendEmails :: "environ \<Rightarrow> int \<Rightarrow> database \<Rightarrow> effect list \<times> database" where
  "sendEmails e visitorId d =
     (if \<not> hr_mail_ok e then
        ([SendMail HR, ConsoleError ''Email sending failed:''], d)
      else if \<not> host_mail_ok e then
        ([SendMail HR, ConsoleLog ''Email sent to HR:'',
          SendMail Host, ConsoleError ''Email sending failed:''], d)
      else
        ([SendMail HR, ConsoleLog ''Email sent to HR:'',
          SendMail Host, ConsoleLog ''Email sent to host:''],
         snd (sql_update (\<lambda>v. v\<lparr>email_sent := True\<rparr>) visitorId d)))"

subsection \<open>POST /api/visitors\<close>

text \<open>\<^verbatim>\<open>!x\<close> on a form field: true for \<^verbatim>\<open>undefined\<close> and for the empty string.\<close>

definition falsy :: "string option \<Rightarrow> bool" where
  "falsy x = (case x of None \<Rightarrow> True | Some s \<Rightarrow> s = [])"

definition register :: "environ \<Rightarrow> request \<Rightarrow> database \<Rightarrow> result" where
  "register e rq d =
     (case upload_single (photo rq) of
        Inl msg \<Rightarrow> error_middleware msg d
      | Inr photoPath \<Rightarrow>
          if falsy (body_full_name rq) \<or> falsy (body_contact_number rq)
             \<or> falsy (body_department_visiting rq) \<or> falsy (body_person_to_visit rq)
          then \<lparr>reply = \<lparr>status = 400, body = JsonError ''All fields are required''\<rparr>,
                effects = [], db_after = d\<rparr>
          else
            (case sql_insert (current_timestamp e)
                    (the (body_full_name rq)) (the (body_contact_number rq))
                    (the (body_department_visiting rq)) (the (body_person_to_visit rq))
                    photoPath d of
               Inl err \<Rightarrow>
                 \<lparr>reply = \<lparr>status = 500, body = JsonError ''Failed to register visitor''\<rparr>,
                  effects = [ConsoleError ''Database error:''], db_after = d\<rparr>
             | Inr (visitorId, d1) \<Rightarrow>
                 let (qrPath, fx1) = generateQRCode e visitorId;
                     d2 = (case qrPath of
                             None \<Rightarrow> d1
                           | Some p \<Rightarrow>
                               snd (sql_update (\<lambda>v. v\<lparr>qr_code_path := Some p\<rparr>) visitorId d1));
                     (fx2, d3) = sendEmails e visitorId d2
                 in \<lparr>reply = \<lparr>status = 200,
                              body = JsonRegistered visitorId ''Visitor registered successfully''\<rparr>,
                     effects = fx1 @ fx2, db_after = d3\<rparr>))"

subsection \<open>GET /api/visitors/:id/approve\<close>

definition approve :: "int \<Rightarrow> database \<Rightarrow> result" where
  "approve visitorId d =
     (let (changes, d1) = sql_update (\<lambda>v. v\<lparr>approved := True\<rparr>) visitorId d
      in if changes = 0 then
           \<lparr>reply = \<lparr>status = 404, body = Text ''Visitor not found''\<rparr>,
            effects = [], db_after = d1\<rparr>
         else
           (case sql_get visitorId d1 of
              None \<Rightarrow>
                \<lparr>reply = \<lparr>status = 404, body = Text ''Visitor data not found''\<rparr>,
                 effects = [], db_after = d1\<rparr>
            | Some visitor \<Rightarrow>
                \<lparr>reply = \<lparr>status = 200, body = ApprovedPage (full_name visitor) visitorId\<rparr>,
                 effects = [], db_after = d1\<rparr>))"

subsection \<open>POST /api/visitors/:id/release\<close>

definition release :: "int \<Rightarrow> datetime \<Rightarrow> database \<Rightarrow> result" where
  "release visitorId releaseTime d =
     (let (changes, d1) = sql_update (\<lambda>v. v\<lparr>out_time := Some releaseTime\<rparr>) visitorId d
      in \<lparr>reply = \<lparr>status = 200, body = Text ''OK''\<rparr>,
          effects = [DashboardUpdate], db_after = d1\<rparr>)"

subsection \<open>POST /api/visitors/:id/security-checkout\<close>

definition security_checkout :: "int \<Rightarrow> datetime \<Rightarrow> database \<Rightarrow> result" where
  "security_checkout visitorId checkoutTime d =
     (let (changes, d1) =
            sql_update (\<lambda>v. v\<lparr>security_confirmed := True,
                                security_out_time := Some checkoutTime\<rparr>) visitorId d
      in \<lparr>reply = \<lparr>status = 200, body = Text ''OK''\<rparr>,
          effects = [DashboardUpdate], db_after = d1\<rparr>)"

subsection \<open>GET /api/visitors/stats\<close>

record stats_row =
  total :: int
  active :: int
  secured :: int
  security_pending :: int

definition stats :: "database \<Rightarrow> stats_row" where
  "stats d =
     \<lparr>total = or_zero (Some (sql_count (visitors d))),
      active = or_zero (sql_sum_case (\<lambda>v. out_time v = None) (visitors d)),
      secured =
        or_zero (sql_sum_case (\<lambda>v. out_time v \<noteq> None \<and> security_confirmed v) (visitors d)),
      security_pending =
        or_zero (sql_sum_case (\<lambda>v. out_time v \<noteq> None \<and> \<not> security_confirmed v) (visitors d))\<rparr>"

subsection \<open>GET /api/visitors\<close>

text \<open>
  The WHERE clause chosen by the \<^verbatim>\<open>status\<close> query parameter; any other value, and no
  value, select every row.
\<close>

definition status_where :: "string option \<Rightarrow> visitor \<Rightarrow> bool" where
  "status_where st v =
     (if st = Some ''active'' then out_time v = None
      else if st = Some ''released'' then out_time v \<noteq> None \<and> security_confirmed v
      else if st = Some ''security-pending'' then out_time v \<noteq> None \<and> \<not> security_confirmed v
      else True)"

definition list_visitors :: "string option \<Rightarrow> database \<Rightarrow> visitor list" where
  "list_visitors st d = order_by_in_time_desc (filter (status_where st) (visitors d))"

section \<open>Sequences of requests\<close>

text \<open>
  The requests that change or read the table, and what a sequence of them leaves in it.
  The listing and the statistics requests only read. The maintenance script that deletes
  every row is run by hand on the database file; it is not a request and is not part of
  these sequences.
\<close>

datatype action =
    Register environ request
  | Approve int
  | Release int datetime
  | SecurityCheckout int datetime
  | ListVisitors "string option"
  | Stats

fun handle :: "action \<Rightarrow> database \<Rightarrow> database" where
  "handle (Register e rq) d = db_after (register e rq d)"
| "handle (Approve i) d = db_after (approve i d)"
| "handle (Release i t) d = db_after (release i t d)"
| "handle (SecurityCheckout i t) d = db_after (security_checkout i t d)"
| "handle (ListVisitors st) d = d"
| "handle Stats d = d"

definition run :: "action list \<Rightarrow> database \<Rightarrow> database" where
  "run as d = fold handle as d"

text \<open>
  What a request does to a row that is already in the table, read off the SET clauses of
  the UPDATE statements; the lemmas on \<open>handle\<close> below show that the handlers do this.
\<close>

fun row_after :: "action \<Rightarrow> visitor \<Rightarrow> visitor" where
  "row_after (Approve i) v = (if visitor_id v = i then v\<lparr>approved := True\<rparr> else v)"
| "row_after (Release i t) v = (if visitor_id v = i then v\<lparr>out_time := Some t\<rparr> else v)"
| "row_after (SecurityCheckout i t) v =
     (if visitor_id v = i then v\<lparr>security_confirmed := True, security_out_time := Some t\<rparr>
      else v)"
| "row_after (Register e rq) v = v"
| "row_after (ListVisitors st) v = v"
| "row_after Stats v = v"

section \<open>Example requests\<close>

definition demo_env :: environ where
  "demo_env = \<lparr>current_timestamp = ''2025-01-01 09:00:00'', qr_ok = True,
                hr_mail_ok = True, host_mail_ok = True\<rparr>"

definition jane :: request where
  "jane = \<lparr>body_full_name = Some ''Jane Doe'', body_contact_number = Some ''5551234567'',
            body_department_visiting = Some ''Engineering'',
            body_person_to_visit = Some ''John Smith'', photo = None\<rparr>"

definition jane_row :: visitor where
  "jane_row = \<lparr>visitor_id = 1, full_name = ''Jane Doe'', contact_number = ''5551234567'',
                department_visiting = ''Engineering'', person_to_visit = ''John Smith'',
                in_time = ''2025-01-01 09:00:00'', out_time = None,
                security_confirmed = False, security_out_time = None, photo_path = None,
                email_sent = True, approved = False,
                qr_code_path = Some ''uploads/qr-1.png''\<rparr>"

definition jane_registered :: database where
  "jane_registered = \<lparr>visitors = [jane_row], sqlite_sequence = 1\<rparr>"

definition blank_name :: request where
  "blank_name = jane\<lparr>body_full_name := Some '' ''\<rparr>"

definition no_name_text_file :: request where
  "no_name_text_file =
     jane\<lparr>body_full_name := None,
          photo := Some \<lparr>mimetype = ''text/plain'', file_size = 10,
                          file_path = ''uploads/1735722000000-notes.txt''\<rparr>\<rparr>"

definition letters_after_digit :: request where
  "letters_after_digit = jane\<lparr>body_contact_number := Some ''5abc''\<rparr>"

definition mail_down :: environ where
  "mail_down = demo_env\<lparr>qr_ok := False, hr_mail_ok := False\<rparr>"

definition hr_mail_down :: environ where
  "hr_mail_down = demo_env\<lparr>hr_mail_ok := False\<rparr>"

definition jane_unnotified :: database where
  "jane_unnotified = \<lparr>visitors = [jane_row\<lparr>email_sent := False\<rparr>], sqlite_sequence = 1\<rparr>"

definition jane_released :: database where
  "jane_released =
     \<lparr>visitors = [jane_row\<lparr>out_time := Some ''2025-01-01T10:00:00.000Z''\<rparr>],
      sqlite_sequence = 1\<rparr>"

definition half_past_nine :: environ where
  "half_past_nine = demo_env\<lparr>current_timestamp := ''2025-01-01 09:30:00''\<rparr>"

definition two_visitors :: database where
  "two_visitors = run [Register demo_env jane, Register half_past_nine jane] empty_db"

section \<open>Facts about the statements\<close>

lemma visitors_sql_update [simp]:
  "visitors (snd (sql_update f i d))
     = map (\<lambda>v. if visitor_id v = i then f v else v) (visitors d)"
  by (simp add: sql_update_def)

lemma sequence_sql_update [simp]:
  "sqlite_sequence (snd (sql_update f i d)) = sqlite_sequence d"
  by (simp add: sql_update_def)

lemma changes_sql_update [simp]:
  "fst (sql_update f i d) = length (filter (\<lambda>v. visitor_id v = i) (visitors d))"
  by (simp add: sql_update_def)

lemma fold_max_ge: "(a::int) \<le> fold max xs a"
  by (induction xs arbitrary: a) (auto intro: order_trans [OF max.cobounded2])

lemma fold_max_mem: "x \<in> set xs \<Longrightarrow> (x::int) \<le> fold max xs a"
proof (induction xs arbitrary: a)
  case Nil
  then show ?case by simp
next
  case (Cons y ys)
  show ?case
  proof (cases "x = y")
    case True
    have "max y a \<le> fold max ys (max y a)" by (rule fold_max_ge)
    with True show ?thesis by simp
  next
    case False
    with Cons show ?thesis by simp
  qed
qed

lemma next_rowid_fresh: "v \<in> set (visitors d) \<Longrightarrow> visitor_id v < next_rowid d"
proof -
  assume "v \<in> set (visitors d)"
  then have "visitor_id v \<le> fold max (map visitor_id (visitors d)) 0"
    by (intro fold_max_mem) simp
  then show ?thesis by (simp add: next_rowid_def)
qed

lemma update_other_rows:
  "\<forall>v \<in> set vs. visitor_id v \<noteq> i
    \<Longrightarrow> map (\<lambda>v. if visitor_id v = i then f v else v) vs = vs"
  by (induction vs) auto

lemma jane_registered_eq: "db_after (register demo_env jane empty_db) = jane_registered"
  by code_simp

section \<open>Statistics\<close>

lemma sum_case_count:
  "sum_list (map (\<lambda>v. if c v then 1 else 0) vs) = int (length (filter c vs))"
  by (induction vs) auto

lemma or_zero_sum_case: "or_zero (sql_sum_case c vs) = int (length (filter c vs))"
  by (simp add: or_zero_def sql_sum_case_def sum_case_count)

lemma three_way_count:
  "length vs = length (filter (\<lambda>v. out_time v = None) vs)
     + length (filter (\<lambda>v. out_time v \<noteq> None \<and> security_confirmed v) vs)
     + length (filter (\<lambda>v. out_time v \<noteq> None \<and> \<not> security_confirmed v) vs)"
  by (induction vs) auto

text \<open>
  C6. For every state of the table, and so after any sequence of requests, the four
  numbers of the statistics endpoint satisfy total = active + secured + security_pending,
  where total counts all rows, active those with \<open>out_time\<close> NULL, secured those with
  \<open>out_time\<close> set and \<open>security_confirmed\<close>, and security_pending those with \<open>out_time\<close>
  set and \<open>security_confirmed\<close> false.
\<close>

theorem stats_counts_add_up:
  "total (stats d) = active (stats d) + secured (stats d) + security_pending (stats d)
   \<and> total (stats d) = int (length (visitors d))
   \<and> active (stats d) = int (length (filter (\<lambda>v. out_time v = None) (visitors d)))
   \<and> secured (stats d)
       = int (length (filter (\<lambda>v. out_time v \<noteq> None \<and> security_confirmed v) (visitors d)))
   \<and> security_pending (stats d)
       = int (length (filter (\<lambda>v. out_time v \<noteq> None \<and> \<not> security_confirmed v) (visitors d)))"
proof -
  have t: "total (stats d) = int (length (visitors d))"
    by (simp add: stats_def or_zero_def sql_count_def)
  have a: "active (stats d) = int (length (filter (\<lambda>v. out_time v = None) (visitors d)))"
    by (simp add: stats_def or_zero_sum_case)
  have s: "secured (stats d)
       = int (length (filter (\<lambda>v. out_time v \<noteq> None \<and> security_confirmed v) (visitors d)))"
    by (simp add: stats_def or_zero_sum_case)
  have p: "security_pending (stats d)
       = int (length (filter (\<lambda>v. out_time v \<noteq> None \<and> \<not> security_confirmed v) (visitors d)))"
    by (simp add: stats_def or_zero_sum_case)
  have "total (stats d) = active (stats d) + secured (stats d) + security_pending (stats d)"
    unfolding t a s p using three_way_count [of "visitors d"] by linarith
  with t a s p show ?thesis by blast
qed

section \<open>Requests for an id that no row has\<close>

text \<open>
  C1. On a table with no rows, the release request and the security-checkout request
  for id 999 find no row, change nothing, and are answered with status 200, not 404.
  Neither handler looks at \<^verbatim>\<open>this.changes\<close>: whatever the id and the table, the answer
  is 200.
\<close>

theorem release_unknown_id_answers_200:
  "sql_get 999 empty_db = None
   \<and> release 999 ''2025-01-01T10:00:00.000Z'' empty_db
       = \<lparr>reply = \<lparr>status = 200, body = Text ''OK''\<rparr>, effects = [DashboardUpdate],
          db_after = empty_db\<rparr>
   \<and> security_checkout 999 ''2025-01-01T10:00:00.000Z'' empty_db
       = \<lparr>reply = \<lparr>status = 200, body = Text ''OK''\<rparr>, effects = [DashboardUpdate],
          db_after = empty_db\<rparr>
   \<and> status (reply (release i t d)) = 200
   \<and> status (reply (security_checkout i t d)) = 200"
proof -
  have a: "sql_get 999 empty_db = None"
    by (simp add: sql_get_def empty_db_def)
  have b: "release 999 ''2025-01-01T10:00:00.000Z'' empty_db
       = \<lparr>reply = \<lparr>status = 200, body = Text ''OK''\<rparr>, effects = [DashboardUpdate],
          db_after = empty_db\<rparr>"
    by (simp add: empty_db_def release_def sql_update_def)
  have c: "security_checkout 999 ''2025-01-01T10:00:00.000Z'' empty_db
       = \<lparr>reply = \<lparr>status = 200, body = Text ''OK''\<rparr>, effects = [DashboardUpdate],
          db_after = empty_db\<rparr>"
    by (simp add: empty_db_def security_checkout_def sql_update_def)
  have d: "status (reply (release i t d)) = 200"
    unfolding release_def by (simp only: case_prod_beta Let_def) simp
  have e: "status (reply (security_checkout i t d)) = 200"
    unfolding security_checkout_def by (simp only: case_prod_beta Let_def) simp
  from a b c d e show ?thesis by blast
qed

section \<open>Registration\<close>

lemma sendEmails_visitors:
  "visitors (snd (sendEmails e i d))
     = map (\<lambda>v. if visitor_id v = i \<and> hr_mail_ok e \<and> host_mail_ok e
                 then v\<lparr>email_sent := True\<rparr> else v) (visitors d)"
  by (cases "hr_mail_ok e"; cases "host_mail_ok e") (simp_all add: sendEmails_def)

lemma sendEmails_sequence: "sqlite_sequence (snd (sendEmails e i d)) = sqlite_sequence d"
  by (simp add: sendEmails_def)

lemma update_old_rows:
  "map (\<lambda>v. if visitor_id v = next_rowid d then f v else v) (visitors d) = visitors d"
proof -
  have "\<forall>v \<in> set (visitors d). visitor_id v \<noteq> next_rowid d"
    using next_rowid_fresh by fastforce
  then show ?thesis by (rule update_other_rows)
qed

lemma register_rejected_upload:
  "upload_single (photo rq) = Inl msg \<Longrightarrow> register e rq d = error_middleware msg d"
  by (simp add: register_def)

lemma register_missing_field:
  assumes "upload_single (photo rq) = Inr ph"
    and "falsy (body_full_name rq) \<or> falsy (body_contact_number rq)
         \<or> falsy (body_department_visiting rq) \<or> falsy (body_person_to_visit rq)"
  shows "register e rq d
           = \<lparr>reply = \<lparr>status = 400, body = JsonError ''All fields are required''\<rparr>,
              effects = [], db_after = d\<rparr>"
  using assms by (simp add: register_def)

lemma register_constraint_failed:
  assumes "upload_single (photo rq) = Inr ph"
    and "\<not> falsy (body_full_name rq)" "\<not> falsy (body_contact_number rq)"
    and "\<not> falsy (body_department_visiting rq)" "\<not> falsy (body_person_to_visit rq)"
    and "\<not> chk_contact (the (body_contact_number rq))"
  shows "register e rq d
           = \<lparr>reply = \<lparr>status = 500, body = JsonError ''Failed to register visitor''\<rparr>,
              effects = [ConsoleError ''Database error:''], db_after = d\<rparr>"
  using assms by (simp add: register_def sql_insert_def)

lemma register_stored:
  assumes "upload_single (photo rq) = Inr ph"
    and "\<not> falsy (body_full_name rq)" "\<not> falsy (body_contact_number rq)"
    and "\<not> falsy (body_department_visiting rq)" "\<not> falsy (body_person_to_visit rq)"
    and "chk_contact (the (body_contact_number rq))"
  shows "register e rq d
           = \<lparr>reply = \<lparr>status = 200,
                        body = JsonRegistered (next_rowid d) ''Visitor registered successfully''\<rparr>,
              effects = snd (generateQRCode e (next_rowid d))
                          @ fst (sendEmails e (next_rowid d) d),
              db_after =
                \<lparr>visitors = visitors d @
                   [\<lparr>visitor_id = next_rowid d,
                     full_name = the (body_full_name rq),
                     contact_number = the (body_contact_number rq),
                     department_visiting = the (body_department_visiting rq),
                     person_to_visit = the (body_person_to_visit rq),
                     in_time = current_timestamp e, out_time = None,
                     security_confirmed = False, security_out_time = None,
                     photo_path = ph,
                     email_sent = (hr_mail_ok e \<and> host_mail_ok e),
                     approved = False,
                     qr_code_path = fst (generateQRCode e (next_rowid d))\<rparr>],
                 sqlite_sequence = next_rowid d\<rparr>\<rparr>"
proof -
  let ?i = "next_rowid d"
  let ?row = "\<lparr>visitor_id = ?i,
                 full_name = the (body_full_name rq),
                 contact_number = the (body_contact_number rq),
                 department_visiting = the (body_department_visiting rq),
                 person_to_visit = the (body_person_to_visit rq),
                 in_time = current_timestamp e, out_time = None,
                 security_confirmed = False, security_out_time = None,
                 photo_path = ph, email_sent = False, approved = False,
                 qr_code_path = None\<rparr>"
  let ?d1 = "\<lparr>visitors = visitors d @ [?row], sqlite_sequence = ?i\<rparr>"
  have ins: "sql_insert (current_timestamp e) (the (body_full_name rq))
               (the (body_contact_number rq)) (the (body_department_visiting rq))
               (the (body_person_to_visit rq)) ph d = Inr (?i, ?d1)"
    using assms(6) by (simp add: sql_insert_def Let_def)
  obtain qr fx1 where q: "generateQRCode e ?i = (qr, fx1)"
    by fastforce
  let ?d2 = "(case qr of None \<Rightarrow> ?d1
              | Some p \<Rightarrow> snd (sql_update (\<lambda>v. v\<lparr>qr_code_path := Some p\<rparr>) ?i ?d1))"
  have d2: "?d2 = \<lparr>visitors = visitors d @ [?row\<lparr>qr_code_path := qr\<rparr>],
                   sqlite_sequence = ?i\<rparr>"
    by (cases qr) (simp_all add: sql_update_def update_old_rows)
  let ?d2' = "\<lparr>visitors = visitors d @ [?row\<lparr>qr_code_path := qr\<rparr>],
                  sqlite_sequence = ?i\<rparr>"
  obtain fx2 d3 where s: "sendEmails e ?i ?d2' = (fx2, d3)"
    by fastforce
  have "visitors d3 = visitors d @ [?row\<lparr>qr_code_path := qr,
                                         email_sent := (hr_mail_ok e \<and> host_mail_ok e)\<rparr>]"
    using sendEmails_visitors [of e ?i ?d2'] unfolding s
    by (cases "hr_mail_ok e \<and> host_mail_ok e") (simp_all add: update_old_rows)
  moreover have "sqlite_sequence d3 = ?i"
    using sendEmails_sequence [of e ?i ?d2'] unfolding s by simp
  ultimately have d3: "d3 = \<lparr>visitors = visitors d @ [?row\<lparr>qr_code_path := qr,
                                         email_sent := (hr_mail_ok e \<and> host_mail_ok e)\<rparr>],
                             sqlite_sequence = ?i\<rparr>"
    by simp
  have fx2: "fx2 = fst (sendEmails e ?i d)"
    using s by (auto simp: sendEmails_def split: if_splits)
  have "register e rq d
          = \<lparr>reply = \<lparr>status = 200,
                       body = JsonRegistered ?i ''Visitor registered successfully''\<rparr>,
             effects = fx1 @ fx2, db_after = d3\<rparr>"
    using assms(1-5) by (simp add: register_def ins q d2 s [simplified])
  then show ?thesis
    by (simp add: d3 fx2 q)
qed

lemma find_append_new:
  "\<forall>v \<in> set xs. \<not> P v \<Longrightarrow> find P (xs @ ys) = find P ys"
  by (induction xs) auto

lemma sql_get_new_row:
  assumes "visitor_id row = next_rowid d"
  shows "sql_get (next_rowid d) \<lparr>visitors = visitors d @ [row], sqlite_sequence = s\<rparr> = Some row"
proof -
  have "\<forall>v \<in> set (visitors d). \<not> visitor_id v = next_rowid d"
    using next_rowid_fresh by fastforce
  then show ?thesis using assms by (simp add: sql_get_def find_append_new)
qed

lemma falsy_iff: "falsy x \<longleftrightarrow> x = None \<or> x = Some []"
  by (simp add: falsy_def split: option.splits)

text \<open>
  C3, as the handler has it. A registration request in which one of the four required
  fields is missing or is the empty string, as received, creates no row. When the upload
  middleware lets the request through it is answered with status 400; when the
  middleware refuses the photo it is answered with status 500. The handler does not
  trim.
\<close>

theorem register_missing_field_creates_nothing:
  assumes "body_full_name rq = None \<or> body_full_name rq = Some []
         \<or> body_contact_number rq = None \<or> body_contact_number rq = Some []
         \<or> body_department_visiting rq = None \<or> body_department_visiting rq = Some []
         \<or> body_person_to_visit rq = None \<or> body_person_to_visit rq = Some []"
  shows "db_after (register e rq d) = d
       \<and> (\<forall>ph. upload_single (photo rq) = Inr ph \<longrightarrow>
             reply (register e rq d)
               = \<lparr>status = 400, body = JsonError ''All fields are required''\<rparr>)
       \<and> (\<forall>msg. upload_single (photo rq) = Inl msg \<longrightarrow>
             status (reply (register e rq d)) = 500)"
proof -
  from assms have f: "falsy (body_full_name rq) \<or> falsy (body_contact_number rq)
         \<or> falsy (body_department_visiting rq) \<or> falsy (body_person_to_visit rq)"
    unfolding falsy_iff by blast
  show ?thesis
  proof (cases "upload_single (photo rq)")
    case (Inl msg)
    then show ?thesis
      by (simp add: register_rejected_upload error_middleware_def)
  next
    case (Inr ph)
    from register_missing_field [OF Inr f] Inr show ?thesis by simp
  qed
qed

text \<open>An empty contact number, sent to a table that holds one row.\<close>

theorem register_missing_field_creates_nothing_witness:
  "body_contact_number (jane\<lparr>body_contact_number := Some []\<rparr>) = Some []
   \<and> upload_single (photo (jane\<lparr>body_contact_number := Some []\<rparr>)) = Inr None
   \<and> db_after (register demo_env (jane\<lparr>body_contact_number := Some []\<rparr>) jane_registered)
       = jane_registered
   \<and> reply (register demo_env (jane\<lparr>body_contact_number := Some []\<rparr>) jane_registered)
       = \<lparr>status = 400, body = JsonError ''All fields are required''\<rparr>"
proof -
  have h: "body_contact_number (jane\<lparr>body_contact_number := Some []\<rparr>) = Some []"
    by simp
  have u: "upload_single (photo (jane\<lparr>body_contact_number := Some []\<rparr>)) = Inr None"
    by (simp add: jane_def upload_single_def)
  from register_missing_field_creates_nothing
         [of "jane\<lparr>body_contact_number := Some []\<rparr>" demo_env jane_registered] h u
  show ?thesis by simp
qed

text \<open>
  C3, as stated, fails: a full name of one space is empty after trimming, and the request
  is answered with status 200 and stored. A request with no name at all whose photo is a
  text file is answered with status 500, not 400.
\<close>

theorem whitespace_name_is_registered:
  "body_full_name blank_name = Some '' ''
   \<and> reply (register demo_env blank_name empty_db)
       = \<lparr>status = 200, body = JsonRegistered 1 ''Visitor registered successfully''\<rparr>
   \<and> map full_name (visitors (db_after (register demo_env blank_name empty_db))) = ['' '']
   \<and> body_full_name no_name_text_file = None
   \<and> status (reply (register demo_env no_name_text_file empty_db)) = 500"
  by code_simp

text \<open>
  C9. The contact number \<^verbatim>\<open>5abc\<close> passes the CHECK constraint, since the GLOB pattern
  asks for a digit in the first place only; no other check looks at the characters.
  The request is answered with status 200 and the row is stored with that contact number.
\<close>

theorem contact_with_letters_is_registered:
  "chk_contact ''5abc''
   \<and> reply (register demo_env letters_after_digit empty_db)
       = \<lparr>status = 200, body = JsonRegistered 1 ''Visitor registered successfully''\<rparr>
   \<and> map contact_number (visitors (db_after (register demo_env letters_after_digit empty_db)))
       = [''5abc'']"
  by code_simp

lemma sql_insert_succeeds:
  "sql_insert now fn cn dv pv ph d = Inr (i, d1) \<Longrightarrow> chk_contact cn \<and> i = next_rowid d"
  by (auto simp: sql_insert_def Let_def split: if_splits)

text \<open>
  C5. When the upload middleware and the validation let a registration through and the
  INSERT succeeds with id \<open>i\<close>, the request is answered with status 200 and that id,
  whatever QR generation and the two mails do. The row is in the table with the
  submitted fields, the rows that were there are untouched, and a failure of the QR
  generation or of a mail leaves an error line on the console and nothing else.
\<close>

theorem registration_survives_side_channel_failures:
  assumes "upload_single (photo rq) = Inr ph"
    and "\<not> falsy (body_full_name rq)" and "\<not> falsy (body_contact_number rq)"
    and "\<not> falsy (body_department_visiting rq)" and "\<not> falsy (body_person_to_visit rq)"
    and "sql_insert (current_timestamp e) (the (body_full_name rq))
           (the (body_contact_number rq)) (the (body_department_visiting rq))
           (the (body_person_to_visit rq)) ph d = Inr (i, d1)"
  shows "reply (register e rq d)
           = \<lparr>status = 200, body = JsonRegistered i ''Visitor registered successfully''\<rparr>
       \<and> sql_get i (db_after (register e rq d))
           = Some \<lparr>visitor_id = i,
                   full_name = the (body_full_name rq),
                   contact_number = the (body_contact_number rq),
                   department_visiting = the (body_department_visiting rq),
                   person_to_visit = the (body_person_to_visit rq),
                   in_time = current_timestamp e, out_time = None,
                   security_confirmed = False, security_out_time = None,
                   photo_path = ph,
                   email_sent = (hr_mail_ok e \<and> host_mail_ok e),
                   approved = False,
                   qr_code_path =
                     (if qr_ok e then Some (''uploads/qr-'' @ show_int i @ ''.png'') else None)\<rparr>
       \<and> take (length (visitors d)) (visitors (db_after (register e rq d))) = visitors d
       \<and> (\<not> qr_ok e \<longrightarrow>
            ConsoleError ''QR Code generation failed:'' \<in> set (effects (register e rq d)))
       \<and> (\<not> (hr_mail_ok e \<and> host_mail_ok e) \<longrightarrow>
            ConsoleError ''Email sending failed:'' \<in> set (effects (register e rq d)))"
proof -
  from sql_insert_succeeds [OF assms(6)]
  have chk: "chk_contact (the (body_contact_number rq))" and i: "i = next_rowid d"
    by simp_all
  note r = register_stored [OF assms(1-5) chk, of e d]
  have qr: "fst (generateQRCode e i)
              = (if qr_ok e then Some (''uploads/qr-'' @ show_int i @ ''.png'') else None)"
    by (simp add: generateQRCode_def Let_def)
  have a: "reply (register e rq d)
           = \<lparr>status = 200, body = JsonRegistered i ''Visitor registered successfully''\<rparr>"
    by (simp add: r i)
  have b: "sql_get i (db_after (register e rq d))
           = Some \<lparr>visitor_id = i,
                   full_name = the (body_full_name rq),
                   contact_number = the (body_contact_number rq),
                   department_visiting = the (body_department_visiting rq),
                   person_to_visit = the (body_person_to_visit rq),
                   in_time = current_timestamp e, out_time = None,
                   security_confirmed = False, security_out_time = None,
                   photo_path = ph,
                   email_sent = (hr_mail_ok e \<and> host_mail_ok e),
                   approved = False,
                   qr_code_path =
                     (if qr_ok e then Some (''uploads/qr-'' @ show_int i @ ''.png'') else None)\<rparr>"
    unfolding r i by (simp add: sql_get_new_row qr [unfolded i])
  have c: "take (length (visitors d)) (visitors (db_after (register e rq d))) = visitors d"
    by (simp add: r)
  have d: "\<not> qr_ok e \<longrightarrow>
            ConsoleError ''QR Code generation failed:'' \<in> set (effects (register e rq d))"
    by (simp add: r generateQRCode_def Let_def)
  have e: "\<not> (hr_mail_ok e \<and> host_mail_ok e) \<longrightarrow>
            ConsoleError ''Email sending failed:'' \<in> set (effects (register e rq d))"
    by (simp add: r sendEmails_def)
  from a b c d e show ?thesis by blast
qed

lemma mail_down_insert:
  "sql_insert (current_timestamp mail_down) (the (body_full_name jane))
     (the (body_contact_number jane)) (the (body_department_visiting jane))
     (the (body_person_to_visit jane)) None jane_registered
   = Inr (2, \<lparr>visitors =
               [jane_row,
                \<lparr>visitor_id = 2, full_name = ''Jane Doe'', contact_number = ''5551234567'',
                 department_visiting = ''Engineering'', person_to_visit = ''John Smith'',
                 in_time = ''2025-01-01 09:00:00'', out_time = None,
                 security_confirmed = False, security_out_time = None, photo_path = None,
                 email_sent = False, approved = False, qr_code_path = None\<rparr>],
              sqlite_sequence = 2\<rparr>)"
  by code_simp

text \<open>A second registration while QR generation and the mail to HR both throw.\<close>

theorem registration_survives_side_channel_failures_witness:
  "\<not> qr_ok mail_down \<and> \<not> hr_mail_ok mail_down
   \<and> reply (register mail_down jane jane_registered)
       = \<lparr>status = 200, body = JsonRegistered 2 ''Visitor registered successfully''\<rparr>
   \<and> sql_get 2 (db_after (register mail_down jane jane_registered))
       = Some \<lparr>visitor_id = 2, full_name = ''Jane Doe'', contact_number = ''5551234567'',
                department_visiting = ''Engineering'', person_to_visit = ''John Smith'',
                in_time = ''2025-01-01 09:00:00'', out_time = None,
                security_confirmed = False, security_out_time = None, photo_path = None,
                email_sent = False, approved = False, qr_code_path = None\<rparr>
   \<and> ConsoleError ''QR Code generation failed:'' \<in> set (effects (register mail_down jane jane_registered))
   \<and> ConsoleError ''Email sending failed:'' \<in> set (effects (register mail_down jane jane_registered))"
proof -
  have u: "upload_single (photo jane) = Inr None"
    by (simp add: jane_def upload_single_def)
  have f: "\<not> falsy (body_full_name jane)" "\<not> falsy (body_contact_number jane)"
    "\<not> falsy (body_department_visiting jane)" "\<not> falsy (body_person_to_visit jane)"
    by (simp_all add: jane_def falsy_def)
  have m: "\<not> qr_ok mail_down" "\<not> hr_mail_ok mail_down"
    "current_timestamp mail_down = ''2025-01-01 09:00:00''"
    by (simp_all add: mail_down_def demo_env_def)
  have j: "the (body_full_name jane) = ''Jane Doe''"
    "the (body_contact_number jane) = ''5551234567''"
    "the (body_department_visiting jane) = ''Engineering''"
    "the (body_person_to_visit jane) = ''John Smith''"
    by (simp_all add: jane_def)
  from registration_survives_side_channel_failures [OF u f mail_down_insert] m j
  show ?thesis by simp
qed

section \<open>The email-sent flag\<close>

lemma sendEmails_hr_fails:
  "\<not> hr_mail_ok e \<Longrightarrow>
     sendEmails e i d = ([SendMail HR, ConsoleError ''Email sending failed:''], d)"
  by (simp add: sendEmails_def)

lemma sendEmails_host_fails:
  "hr_mail_ok e \<Longrightarrow> \<not> host_mail_ok e \<Longrightarrow>
     sendEmails e i d
       = ([SendMail HR, ConsoleLog ''Email sent to HR:'',
           SendMail Host, ConsoleError ''Email sending failed:''], d)"
  by (simp add: sendEmails_def)

lemma map_if_update:
  "map g (map (\<lambda>v. if c v then f v else v) vs) = map (\<lambda>v. if c v then g (f v) else g v) vs"
  by (induction vs) auto

lemma sendEmails_both_sent:
  "hr_mail_ok e \<Longrightarrow> host_mail_ok e \<Longrightarrow>
     sendEmails e i d
       = ([SendMail HR, ConsoleLog ''Email sent to HR:'',
           SendMail Host, ConsoleLog ''Email sent to host:''],
          snd (sql_update (\<lambda>v. v\<lparr>email_sent := True\<rparr>) i d))"
  by (simp add: sendEmails_def)

text \<open>
  C10. \<^verbatim>\<open>sendEmails\<close> sets \<open>email_sent\<close> on the rows with the given id exactly when both
  mails went out, and changes no \<open>email_sent\<close> otherwise. What it hands to the transporter
  and writes on the console is fixed in each case: when the mail to HR throws, that one
  attempt and an error line, with no attempt at the mail to the host; when the mail to
  the host throws, both attempts, the line for HR and an error line; when both succeed,
  both attempts and both lines. The table changes only in the last case, after both
  mails. The approve, release and security-checkout handlers do not touch the flag, and
  a successful registration has the effects of \<^verbatim>\<open>sendEmails\<close> after those of the QR
  generation and stores a row with \<open>email_sent\<close> true exactly when both mails went out.
\<close>

theorem email_sent_needs_both_mails:
  "map email_sent (visitors (snd (sendEmails e i d)))
     = map (\<lambda>v. if visitor_id v = i \<and> hr_mail_ok e \<and> host_mail_ok e then True
                 else email_sent v) (visitors d)
   \<and> (\<not> hr_mail_ok e \<longrightarrow>
        SendMail Host \<notin> set (fst (sendEmails e i d)) \<and> snd (sendEmails e i d) = d)
   \<and> (\<not> host_mail_ok e \<longrightarrow> snd (sendEmails e i d) = d)
   \<and> map email_sent (visitors (db_after (approve i d))) = map email_sent (visitors d)
   \<and> map email_sent (visitors (db_after (release i t d))) = map email_sent (visitors d)
   \<and> map email_sent (visitors (db_after (security_checkout i t d)))
       = map email_sent (visitors d)
   \<and> (\<not> isl (upload_single (photo rq))
        \<and> \<not> falsy (body_full_name rq) \<and> \<not> falsy (body_contact_number rq)
        \<and> \<not> falsy (body_department_visiting rq) \<and> \<not> falsy (body_person_to_visit rq)
        \<and> chk_contact (the (body_contact_number rq)) \<longrightarrow>
        map_option email_sent (sql_get (next_rowid d) (db_after (register e rq d)))
          = Some (hr_mail_ok e \<and> host_mail_ok e)
        \<and> effects (register e rq d)
            = snd (generateQRCode e (next_rowid d)) @ fst (sendEmails e (next_rowid d) d))
   \<and> fst (sendEmails e i d)
       = (if \<not> hr_mail_ok e then
            [SendMail HR, ConsoleError ''Email sending failed:'']
          else if \<not> host_mail_ok e then
            [SendMail HR, ConsoleLog ''Email sent to HR:'',
             SendMail Host, ConsoleError ''Email sending failed:'']
          else
            [SendMail HR, ConsoleLog ''Email sent to HR:'',
             SendMail Host, ConsoleLog ''Email sent to host:''])
   \<and> (snd (sendEmails e i d) \<noteq> d \<longrightarrow>
        hr_mail_ok e \<and> host_mail_ok e
        \<and> fst (sendEmails e i d)
            = [SendMail HR, ConsoleLog ''Email sent to HR:'',
               SendMail Host, ConsoleLog ''Email sent to host:''])"
proof -
  have a: "map email_sent (visitors (snd (sendEmails e i d)))
     = map (\<lambda>v. if visitor_id v = i \<and> hr_mail_ok e \<and> host_mail_ok e then True
                 else email_sent v) (visitors d)"
    by (simp add: sendEmails_visitors map_if_update)
  have b: "\<not> hr_mail_ok e \<longrightarrow>
        SendMail Host \<notin> set (fst (sendEmails e i d)) \<and> snd (sendEmails e i d) = d"
    by (simp add: sendEmails_hr_fails)
  have c: "\<not> host_mail_ok e \<longrightarrow> snd (sendEmails e i d) = d"
    by (cases "hr_mail_ok e") (simp_all add: sendEmails_hr_fails sendEmails_host_fails)
  have d: "map email_sent (visitors (db_after (approve i d))) = map email_sent (visitors d)"
    by (simp add: approve_def sql_update_def map_if_update split: option.splits)
  have e: "map email_sent (visitors (db_after (release i t d))) = map email_sent (visitors d)"
    by (simp add: release_def sql_update_def map_if_update)
  have f: "map email_sent (visitors (db_after (security_checkout i t d)))
       = map email_sent (visitors d)"
    by (simp add: security_checkout_def sql_update_def map_if_update)
  have g: "\<not> isl (upload_single (photo rq))
        \<and> \<not> falsy (body_full_name rq) \<and> \<not> falsy (body_contact_number rq)
        \<and> \<not> falsy (body_department_visiting rq) \<and> \<not> falsy (body_person_to_visit rq)
        \<and> chk_contact (the (body_contact_number rq)) \<longrightarrow>
        map_option email_sent (sql_get (next_rowid d) (db_after (register e rq d)))
          = Some (hr_mail_ok e \<and> host_mail_ok e)
        \<and> effects (register e rq d)
            = snd (generateQRCode e (next_rowid d)) @ fst (sendEmails e (next_rowid d) d)"
  proof (cases "upload_single (photo rq)")
    case (Inl msg)
    then show ?thesis by simp
  next
    case (Inr ph)
    show ?thesis
    proof (intro impI, elim conjE)
      assume "\<not> falsy (body_full_name rq)" "\<not> falsy (body_contact_number rq)"
        "\<not> falsy (body_department_visiting rq)" "\<not> falsy (body_person_to_visit rq)"
        "chk_contact (the (body_contact_number rq))"
      from register_stored [OF Inr this, of e d]
      show "map_option email_sent (sql_get (next_rowid d) (db_after (register e rq d)))
          = Some (hr_mail_ok e \<and> host_mail_ok e)
        \<and> effects (register e rq d)
            = snd (generateQRCode e (next_rowid d)) @ fst (sendEmails e (next_rowid d) d)"
        by (simp add: sql_get_new_row)
    qed
  qed
  have h: "fst (sendEmails e i d)
       = (if \<not> hr_mail_ok e then
            [SendMail HR, ConsoleError ''Email sending failed:'']
          else if \<not> host_mail_ok e then
            [SendMail HR, ConsoleLog ''Email sent to HR:'',
             SendMail Host, ConsoleError ''Email sending failed:'']
          else
            [SendMail HR, ConsoleLog ''Email sent to HR:'',
             SendMail Host, ConsoleLog ''Email sent to host:''])"
    by (cases "hr_mail_ok e"; cases "host_mail_ok e")
       (simp_all add: sendEmails_hr_fails sendEmails_host_fails sendEmails_both_sent)
  have k: "snd (sendEmails e i d) \<noteq> d \<longrightarrow>
        hr_mail_ok e \<and> host_mail_ok e
        \<and> fst (sendEmails e i d)
            = [SendMail HR, ConsoleLog ''Email sent to HR:'',
               SendMail Host, ConsoleLog ''Email sent to host:'']"
  proof
    assume n: "snd (sendEmails e i d) \<noteq> d"
    with b have hr: "hr_mail_ok e" by blast
    from n c have host: "host_mail_ok e" by blast
    from hr host h show "hr_mail_ok e \<and> host_mail_ok e
        \<and> fst (sendEmails e i d)
            = [SendMail HR, ConsoleLog ''Email sent to HR:'',
               SendMail Host, ConsoleLog ''Email sent to host:'']"
      by simp
  qed
  from a b c d e f g h k show ?thesis by blast
qed

text \<open>
  The mail to HR throws: one attempt, one error line, the flag stays false. Both mails
  succeed: both attempts are among the effects, the table changes and the flag is true.
\<close>

theorem email_sent_needs_both_mails_witness:
  "\<not> hr_mail_ok hr_mail_down \<and> host_mail_ok hr_mail_down
   \<and> fst (sendEmails hr_mail_down 1 jane_unnotified)
       = [SendMail HR, ConsoleError ''Email sending failed:'']
   \<and> SendMail Host \<notin> set (fst (sendEmails hr_mail_down 1 jane_unnotified))
   \<and> snd (sendEmails hr_mail_down 1 jane_unnotified) = jane_unnotified
   \<and> map email_sent (visitors (snd (sendEmails hr_mail_down 1 jane_unnotified))) = [False]
   \<and> map email_sent (visitors (snd (sendEmails demo_env 1 jane_unnotified))) = [True]
   \<and> snd (sendEmails demo_env 1 jane_unnotified) \<noteq> jane_unnotified
   \<and> fst (sendEmails demo_env 1 jane_unnotified)
       = [SendMail HR, ConsoleLog ''Email sent to HR:'',
          SendMail Host, ConsoleLog ''Email sent to host:'']
   \<and> map_option email_sent (sql_get 2 (db_after (register hr_mail_down jane jane_registered)))
       = Some False
   \<and> effects (register hr_mail_down jane jane_registered)
       = [QRToFile ''uploads/qr-2.png'', SendMail HR, ConsoleError ''Email sending failed:'']"
proof -
  have u: "\<not> isl (upload_single (photo jane))"
    by (simp add: jane_def upload_single_def)
  have f: "\<not> falsy (body_full_name jane)" "\<not> falsy (body_contact_number jane)"
    "\<not> falsy (body_department_visiting jane)" "\<not> falsy (body_person_to_visit jane)"
    by (simp_all add: jane_def falsy_def)
  have k: "chk_contact (the (body_contact_number jane))"
    by code_simp
  have n: "next_rowid jane_registered = 2"
    by code_simp
  have q: "snd (generateQRCode hr_mail_down 2) = [QRToFile ''uploads/qr-2.png'']"
    by code_simp
  have h: "\<not> hr_mail_ok hr_mail_down" "host_mail_ok hr_mail_down"
    by (simp_all add: hr_mail_down_def demo_env_def)
  have ok: "hr_mail_ok demo_env" "host_mail_ok demo_env"
    by (simp_all add: demo_env_def)
  have v: "visitors jane_unnotified = [jane_row\<lparr>email_sent := False\<rparr>]"
    "visitor_id jane_row = 1"
    by (simp_all add: jane_unnotified_def jane_row_def)
  have c: "snd (sendEmails demo_env 1 jane_unnotified) \<noteq> jane_unnotified"
    by code_simp
  from email_sent_needs_both_mails [of hr_mail_down 1 jane_unnotified]
    email_sent_needs_both_mails [of demo_env 1 jane_unnotified]
    email_sent_needs_both_mails [of hr_mail_down 1 jane_registered _ jane]
    email_sent_needs_both_mails [of hr_mail_down 2 jane_registered _ jane]
    h ok v u f k n q c
  show ?thesis by simp
qed

section \<open>Looking rows up and updating them\<close>

lemma sql_get_SomeD: "sql_get i d = Some v \<Longrightarrow> visitor_id v = i \<and> v \<in> set (visitors d)"
  by (auto simp: sql_get_def find_Some_iff)

lemma sql_get_None_iff: "sql_get i d = None \<longleftrightarrow> (\<forall>v \<in> set (visitors d). visitor_id v \<noteq> i)"
  by (auto simp: sql_get_def find_None_iff)

lemma changes_zero_iff: "fst (sql_update f i d) = 0 \<longleftrightarrow> sql_get i d = None"
  by (auto simp: sql_get_None_iff filter_empty_conv)

lemma find_id_map:
  "(\<And>v. visitor_id (g v) = visitor_id v)
    \<Longrightarrow> find (\<lambda>v. visitor_id v = j) (map g vs) = map_option g (find (\<lambda>v. visitor_id v = j) vs)"
  by (induction vs) auto

lemma sql_get_update:
  assumes "\<And>v. visitor_id (f v) = visitor_id v"
  shows "sql_get j (snd (sql_update f i d))
           = map_option (\<lambda>v. if j = i then f v else v) (sql_get j d)"
proof -
  have "sql_get j (snd (sql_update f i d))
          = map_option (\<lambda>v. if visitor_id v = i then f v else v) (sql_get j d)"
    unfolding sql_get_def visitors_sql_update
    by (rule find_id_map) (simp add: assms)
  also have "\<dots> = map_option (\<lambda>v. if j = i then f v else v) (sql_get j d)"
  proof (cases "sql_get j d")
    case None
    then show ?thesis by simp
  next
    case (Some v)
    then have "visitor_id v = j" by (simp add: sql_get_SomeD)
    with Some show ?thesis by auto
  qed
  finally show ?thesis .
qed

section \<open>Approval\<close>

lemma update_unknown_id: "sql_get i d = None \<Longrightarrow> snd (sql_update f i d) = d"
  by (simp add: sql_update_def sql_get_None_iff update_other_rows)

lemma approve_unknown:
  assumes "sql_get i d = None"
  shows "approve i d = \<lparr>reply = \<lparr>status = 404, body = Text ''Visitor not found''\<rparr>,
                         effects = [], db_after = d\<rparr>"
proof -
  have c: "fst (sql_update (\<lambda>v. v\<lparr>approved := True\<rparr>) i d) = 0"
    unfolding changes_zero_iff by (rule assms)
  have d: "snd (sql_update (\<lambda>v. v\<lparr>approved := True\<rparr>) i d) = d"
    by (rule update_unknown_id [OF assms])
  show ?thesis
    unfolding approve_def by (simp only: case_prod_beta Let_def c d) simp
qed

lemma approve_known:
  assumes "sql_get i d = Some v"
  shows "approve i d
           = \<lparr>reply = \<lparr>status = 200, body = ApprovedPage (full_name v) i\<rparr>,
              effects = [],
              db_after = snd (sql_update (\<lambda>v. v\<lparr>approved := True\<rparr>) i d)\<rparr>"
proof -
  have c: "fst (sql_update (\<lambda>v. v\<lparr>approved := True\<rparr>) i d) \<noteq> 0"
    unfolding changes_zero_iff using assms by simp
  have g: "sql_get i (snd (sql_update (\<lambda>v. v\<lparr>approved := True\<rparr>) i d))
             = Some (v\<lparr>approved := True\<rparr>)"
    using assms by (simp add: sql_get_update)
  show ?thesis
    unfolding approve_def by (simp only: case_prod_beta Let_def c g if_False option.case) simp
qed

lemma updated_rows_have:
  assumes "\<And>v. P (f v)"
  shows "\<forall>v \<in> set (visitors (snd (sql_update f i d))). visitor_id v = i \<longrightarrow> P v"
proof -
  have "\<forall>v \<in> set (map (\<lambda>v. if visitor_id v = i then f v else v) vs). visitor_id v = i \<longrightarrow> P v"
    for vs
    by (induction vs) (simp_all add: assms)
  then show ?thesis by (simp only: visitors_sql_update)
qed

lemma update_twice:
  "(\<And>v. visitor_id (f v) = visitor_id v) \<Longrightarrow> (\<And>v. f (f v) = f v)
    \<Longrightarrow> snd (sql_update f i (snd (sql_update f i d))) = snd (sql_update f i d)"
  by (simp add: sql_update_def)

text \<open>
  C8. For an id that some row has, the approve request is answered with status 200, the
  first time and the second time; after the second request the table is what it was after
  the first, and every row with that id has \<open>approved\<close> true. For an id that no row has,
  the request is answered with status 404 and changes nothing.
\<close>

theorem approve_idempotent:
  "(sql_get i d \<noteq> None \<longrightarrow>
      status (reply (approve i d)) = 200
      \<and> status (reply (approve i (db_after (approve i d)))) = 200
      \<and> db_after (approve i (db_after (approve i d))) = db_after (approve i d)
      \<and> map_option approved (sql_get i (db_after (approve i (db_after (approve i d)))))
           = Some True
      \<and> (\<forall>v \<in> set (visitors (db_after (approve i (db_after (approve i d))))).
            visitor_id v = i \<longrightarrow> approved v))
   \<and> (sql_get i d = None \<longrightarrow>
        approve i d = \<lparr>reply = \<lparr>status = 404, body = Text ''Visitor not found''\<rparr>,
                        effects = [], db_after = d\<rparr>)"
proof (intro conjI impI)
  assume "sql_get i d = None"
  then show "approve i d = \<lparr>reply = \<lparr>status = 404, body = Text ''Visitor not found''\<rparr>,
                        effects = [], db_after = d\<rparr>"
    by (rule approve_unknown)
next
  assume "sql_get i d \<noteq> None"
  then obtain v where v: "sql_get i d = Some v" by blast
  let ?f = "\<lambda>v. v\<lparr>approved := True\<rparr>"
  let ?d1 = "snd (sql_update ?f i d)"
  have a1: "approve i d = \<lparr>reply = \<lparr>status = 200, body = ApprovedPage (full_name v) i\<rparr>,
              effects = [], db_after = ?d1\<rparr>"
    by (rule approve_known [OF v])
  have v1: "sql_get i ?d1 = Some (?f v)"
    using sql_get_update [of ?f i i d] v by simp
  have a2: "approve i ?d1
              = \<lparr>reply = \<lparr>status = 200, body = ApprovedPage (full_name (?f v)) i\<rparr>,
                 effects = [], db_after = snd (sql_update ?f i ?d1)\<rparr>"
    by (rule approve_known [OF v1])
  have same: "snd (sql_update ?f i ?d1) = ?d1"
    by (rule update_twice) simp_all
  show "status (reply (approve i d)) = 200"
    by (simp add: a1)
  show "status (reply (approve i (db_after (approve i d)))) = 200"
    unfolding a1 by (simp add: a2)
  show "db_after (approve i (db_after (approve i d))) = db_after (approve i d)"
    unfolding a1 by (simp add: a2 same)
  show "map_option approved (sql_get i (db_after (approve i (db_after (approve i d)))))
           = Some True"
    unfolding a1 by (simp add: a2 same v1)
  show "\<forall>v \<in> set (visitors (db_after (approve i (db_after (approve i d))))).
            visitor_id v = i \<longrightarrow> approved v"
  proof -
    have "db_after (approve i (db_after (approve i d))) = ?d1"
      unfolding a1 by (simp add: a2 same)
    moreover have "\<forall>v \<in> set (visitors ?d1). visitor_id v = i \<longrightarrow> approved v"
      by (rule updated_rows_have) simp
    ultimately show ?thesis by (simp only:)
  qed
qed

text \<open>Approving Jane twice, and approving id 7, which no row has.\<close>

theorem approve_idempotent_witness:
  "sql_get 1 jane_registered \<noteq> None
   \<and> status (reply (approve 1 jane_registered)) = 200
   \<and> status (reply (approve 1 (db_after (approve 1 jane_registered)))) = 200
   \<and> map_option approved (sql_get 1 (db_after (approve 1 (db_after (approve 1 jane_registered)))))
       = Some True
   \<and> sql_get 7 jane_registered = None
   \<and> approve 7 jane_registered
       = \<lparr>reply = \<lparr>status = 404, body = Text ''Visitor not found''\<rparr>,
          effects = [], db_after = jane_registered\<rparr>"
proof -
  have k: "sql_get 1 jane_registered \<noteq> None"
    by code_simp
  have u: "sql_get 7 jane_registered = None"
    by code_simp
  from approve_idempotent [of 1 jane_registered] approve_idempotent [of 7 jane_registered] k u
  show ?thesis by blast
qed

section \<open>What one request does to the rows\<close>

lemma row_after_id [simp]: "visitor_id (row_after a v) = visitor_id v"
  by (cases a) simp_all

lemma db_after_release:
  "db_after (release i t d) = snd (sql_update (\<lambda>v. v\<lparr>out_time := Some t\<rparr>) i d)"
  unfolding release_def by (simp only: case_prod_beta Let_def) simp

lemma db_after_security_checkout:
  "db_after (security_checkout i t d)
     = snd (sql_update (\<lambda>v. v\<lparr>security_confirmed := True, security_out_time := Some t\<rparr>) i d)"
  unfolding security_checkout_def by (simp only: case_prod_beta Let_def) simp

lemma db_after_approve:
  "db_after (approve i d) = snd (sql_update (\<lambda>v. v\<lparr>approved := True\<rparr>) i d)"
proof (cases "sql_get i d")
  case None
  then show ?thesis by (simp only: approve_unknown update_unknown_id) simp
next
  case (Some v)
  then show ?thesis by (simp only: approve_known) simp
qed

lemma register_db_after_cases:
  "db_after (register e rq d) = d
   \<or> (\<exists>row. db_after (register e rq d)
               = \<lparr>visitors = visitors d @ [row], sqlite_sequence = next_rowid d\<rparr>
            \<and> visitor_id row = next_rowid d \<and> out_time row = None
            \<and> \<not> security_confirmed row \<and> security_out_time row = None
            \<and> \<not> approved row)"
proof (cases "upload_single (photo rq)")
  case (Inl msg)
  then show ?thesis by (simp add: register_rejected_upload error_middleware_def)
next
  case (Inr ph)
  show ?thesis
  proof (cases "falsy (body_full_name rq) \<or> falsy (body_contact_number rq)
         \<or> falsy (body_department_visiting rq) \<or> falsy (body_person_to_visit rq)")
    case True
    from register_missing_field [OF Inr True] show ?thesis by simp
  next
    case False
    then have f: "\<not> falsy (body_full_name rq)" "\<not> falsy (body_contact_number rq)"
      "\<not> falsy (body_department_visiting rq)" "\<not> falsy (body_person_to_visit rq)"
      by simp_all
    show ?thesis
    proof (cases "chk_contact (the (body_contact_number rq))")
      case True
      from register_stored [OF Inr f True, of e d] show ?thesis by simp
    next
      case False
      from register_constraint_failed [OF Inr f False] show ?thesis by simp
    qed
  qed
qed

lemma visitors_handle:
  "\<exists>new. visitors (handle a d) = map (row_after a) (visitors d) @ new
     \<and> (\<forall>w \<in> set new. visitor_id w = next_rowid d \<and> out_time w = None
            \<and> \<not> security_confirmed w \<and> security_out_time w = None)"
proof (cases a)
  case (Register e rq)
  have m: "map (row_after (Register e rq)) vs = vs" for vs
    by (induction vs) simp_all
  from register_db_after_cases [of e rq d] show ?thesis
  proof
    assume "db_after (register e rq d) = d"
    then have "visitors (handle a d) = map (row_after a) (visitors d) @ []"
      by (simp add: Register m)
    then show ?thesis by fastforce
  next
    assume "\<exists>row. db_after (register e rq d)
               = \<lparr>visitors = visitors d @ [row], sqlite_sequence = next_rowid d\<rparr>
            \<and> visitor_id row = next_rowid d \<and> out_time row = None
            \<and> \<not> security_confirmed row \<and> security_out_time row = None
            \<and> \<not> approved row"
    then obtain row where r: "db_after (register e rq d)
               = \<lparr>visitors = visitors d @ [row], sqlite_sequence = next_rowid d\<rparr>"
      and p: "visitor_id row = next_rowid d \<and> out_time row = None
            \<and> \<not> security_confirmed row \<and> security_out_time row = None"
      by blast
    have "visitors (handle a d) = map (row_after a) (visitors d) @ [row]"
      by (simp add: Register m r)
    with p show ?thesis by fastforce
  qed
next
  case (Approve i)
  have "visitors (handle a d) = map (row_after a) (visitors d) @ []"
    by (simp add: Approve db_after_approve cong: map_cong)
  then show ?thesis by fastforce
next
  case (Release i t)
  have "visitors (handle a d) = map (row_after a) (visitors d) @ []"
    by (simp add: Release db_after_release cong: map_cong)
  then show ?thesis by fastforce
next
  case (SecurityCheckout i t)
  have "visitors (handle a d) = map (row_after a) (visitors d) @ []"
    by (simp add: SecurityCheckout db_after_security_checkout cong: map_cong)
  then show ?thesis by fastforce
next
  case (ListVisitors st)
  have "map (row_after (ListVisitors st)) vs = vs" for vs
    by (induction vs) simp_all
  then have "visitors (handle a d) = map (row_after a) (visitors d) @ []"
    by (simp add: ListVisitors)
  then show ?thesis by fastforce
next
  case Stats
  have "map (row_after Stats) vs = vs" for vs
    by (induction vs) simp_all
  then have "visitors (handle a d) = map (row_after a) (visitors d) @ []"
    by (simp add: Stats)
  then show ?thesis by fastforce
qed

lemma find_append_old: "find P xs = Some v \<Longrightarrow> find P (xs @ ys) = Some v"
  by (induction xs) (auto split: if_splits)

lemma sql_get_handle:
  assumes "sql_get j d = Some v"
  shows "sql_get j (handle a d) = Some (row_after a v)"
proof -
  obtain new where n: "visitors (handle a d) = map (row_after a) (visitors d) @ new"
    using visitors_handle by blast
  have "find (\<lambda>v. visitor_id v = j) (map (row_after a) (visitors d)) = Some (row_after a v)"
    using assms find_id_map [of "row_after a" j "visitors d"] by (simp add: sql_get_def)
  then show ?thesis
    unfolding sql_get_def n by (rule find_append_old)
qed

section \<open>Release and the time of departure\<close>

lemma run_Nil [simp]: "run [] d = d"
  by (simp add: run_def)

lemma run_Cons [simp]: "run (a # as) d = run as (handle a d)"
  by (simp add: run_def)

lemma out_time_row_after:
  "out_time (row_after a v)
     = (case a of Release i t \<Rightarrow> if visitor_id v = i then Some t else out_time v
        | _ \<Rightarrow> out_time v)"
  by (cases a) simp_all

lemma out_time_run:
  assumes "sql_get j d = Some v" and "out_time v \<noteq> None"
  shows "\<exists>v'. sql_get j (run as d) = Some v' \<and> out_time v' \<noteq> None
           \<and> ((\<forall>t'. Release j t' \<notin> set as) \<longrightarrow> out_time v' = out_time v)"
  using assms
proof (induction as arbitrary: d v)
  case Nil
  then show ?case by simp
next
  case (Cons a as)
  let ?w = "row_after a v"
  have id: "visitor_id v = j" using Cons.prems(1) by (simp add: sql_get_SomeD)
  have g: "sql_get j (handle a d) = Some ?w"
    by (rule sql_get_handle [OF Cons.prems(1)])
  have set: "out_time ?w \<noteq> None"
    using Cons.prems(2) by (cases a) simp_all
  have same: "(\<forall>t'. a \<noteq> Release j t') \<Longrightarrow> out_time ?w = out_time v"
    using id by (cases a) auto
  from Cons.IH [OF g set] obtain v' where
    v': "sql_get j (run as (handle a d)) = Some v'" "out_time v' \<noteq> None"
        "(\<forall>t'. Release j t' \<notin> set as) \<longrightarrow> out_time v' = out_time ?w"
    by blast
  have "(\<forall>t'. Release j t' \<notin> set (a # as)) \<longrightarrow> out_time v' = out_time v"
  proof
    assume n: "\<forall>t'. Release j t' \<notin> set (a # as)"
    then have "\<forall>t'. a \<noteq> Release j t'" and "\<forall>t'. Release j t' \<notin> set as"
      by auto
    with v'(3) same show "out_time v' = out_time v" by simp
  qed
  with v'(1,2) show ?case by simp
qed

text \<open>
  C2, as the handlers have it. Once a row has \<open>out_time\<close> set, no sequence of requests
  makes it NULL again, and a sequence with no release request for that id leaves it as
  it is. A release request for that id writes its own time over the old one.
\<close>

theorem out_time_never_cleared:
  assumes "sql_get j d = Some v" and "out_time v = Some t"
  shows "(\<exists>v'. sql_get j (run as d) = Some v' \<and> out_time v' \<noteq> None
            \<and> ((\<forall>t'. Release j t' \<notin> set as) \<longrightarrow> out_time v' = Some t))
       \<and> map_option out_time (sql_get j (db_after (release j t' d))) = Some (Some t')"
proof -
  have "out_time v \<noteq> None" using assms(2) by simp
  from out_time_run [OF assms(1) this, of as] assms(2)
  have a: "\<exists>v'. sql_get j (run as d) = Some v' \<and> out_time v' \<noteq> None
            \<and> ((\<forall>t'. Release j t' \<notin> set as) \<longrightarrow> out_time v' = Some t)"
    by simp
  have "sql_get j (handle (Release j t') d) = Some (row_after (Release j t') v)"
    by (rule sql_get_handle [OF assms(1)])
  moreover have "visitor_id v = j" using assms(1) by (simp add: sql_get_SomeD)
  ultimately have b: "map_option out_time (sql_get j (db_after (release j t' d))) = Some (Some t')"
    by simp
  from a b show ?thesis by blast
qed

text \<open>
  Jane has been released at ten; an approval and a security checkout leave that time,
  and a release at eleven replaces it.
\<close>

theorem out_time_never_cleared_witness:
  "sql_get 1 jane_released = Some (jane_row\<lparr>out_time := Some ''2025-01-01T10:00:00.000Z''\<rparr>)
   \<and> out_time (jane_row\<lparr>out_time := Some ''2025-01-01T10:00:00.000Z''\<rparr>)
       = Some ''2025-01-01T10:00:00.000Z''
   \<and> (\<exists>v'. sql_get 1 (run [Approve 1, SecurityCheckout 1 ''2025-01-01T10:05:00.000Z'']
                        jane_released) = Some v'
           \<and> out_time v' = Some ''2025-01-01T10:00:00.000Z'')
   \<and> map_option out_time (sql_get 1 (db_after (release 1 ''2025-01-01T11:00:00.000Z'' jane_released)))
       = Some (Some ''2025-01-01T11:00:00.000Z'')"
proof -
  have g: "sql_get 1 jane_released
             = Some (jane_row\<lparr>out_time := Some ''2025-01-01T10:00:00.000Z''\<rparr>)"
    by (simp add: sql_get_def jane_released_def jane_row_def)
  have o: "out_time (jane_row\<lparr>out_time := Some ''2025-01-01T10:00:00.000Z''\<rparr>)
       = Some ''2025-01-01T10:00:00.000Z''"
    by simp
  from out_time_never_cleared [OF g o,
         of "[Approve 1, SecurityCheckout 1 ''2025-01-01T10:05:00.000Z'']"
            "''2025-01-01T11:00:00.000Z''"] g
  show ?thesis by auto
qed

text \<open>
  C2, as stated, fails: Jane registers and is released at ten, so that \<open>out_time\<close> is set;
  a second release request at eleven answers 200 and changes \<open>out_time\<close> to eleven.
\<close>

theorem second_release_overwrites_out_time:
  "map out_time
     (visitors (run [Register demo_env jane, Release 1 ''2025-01-01T10:00:00.000Z''] empty_db))
     = [Some ''2025-01-01T10:00:00.000Z'']
   \<and> map out_time
     (visitors (run [Register demo_env jane, Release 1 ''2025-01-01T10:00:00.000Z'',
                     Release 1 ''2025-01-01T11:00:00.000Z''] empty_db))
     = [Some ''2025-01-01T11:00:00.000Z'']
   \<and> status (reply (release 1 ''2025-01-01T11:00:00.000Z''
        (run [Register demo_env jane, Release 1 ''2025-01-01T10:00:00.000Z''] empty_db))) = 200"
  by code_simp

section \<open>Security checkout\<close>

lemma rows_handle_cases:
  assumes "w \<in> set (visitors (handle a d))"
  shows "(\<exists>v \<in> set (visitors d). w = row_after a v)
       \<or> (visitor_id w = next_rowid d \<and> out_time w = None
            \<and> \<not> security_confirmed w \<and> security_out_time w = None)"
proof -
  obtain new where n: "visitors (handle a d) = map (row_after a) (visitors d) @ new"
    and p: "\<forall>w \<in> set new. visitor_id w = next_rowid d \<and> out_time w = None
            \<and> \<not> security_confirmed w \<and> security_out_time w = None"
    using visitors_handle by blast
  from assms have "w \<in> set (map (row_after a) (visitors d)) \<or> w \<in> set new"
    unfolding n by simp
  then show ?thesis
  proof
    assume "w \<in> set (map (row_after a) (visitors d))"
    then have "\<exists>v \<in> set (visitors d). w = row_after a v" by (simp add: image_iff)
    then show ?thesis ..
  next
    assume "w \<in> set new"
    with p show ?thesis by blast
  qed
qed

lemma confirmed_row_after:
  assumes "security_confirmed v \<longrightarrow> security_out_time v \<noteq> None"
  shows "security_confirmed (row_after a v) \<longrightarrow> security_out_time (row_after a v) \<noteq> None"
  using assms by (cases a) simp_all

lemma confirmed_has_time_handle:
  assumes "\<forall>v \<in> set (visitors d). security_confirmed v \<longrightarrow> security_out_time v \<noteq> None"
  shows "\<forall>w \<in> set (visitors (handle a d)).
           security_confirmed w \<longrightarrow> security_out_time w \<noteq> None"
proof
  fix w
  assume "w \<in> set (visitors (handle a d))"
  from rows_handle_cases [OF this]
  show "security_confirmed w \<longrightarrow> security_out_time w \<noteq> None"
  proof
    assume "\<exists>v \<in> set (visitors d). w = row_after a v"
    then obtain v where "v \<in> set (visitors d)" and w: "w = row_after a v" by blast
    with assms have "security_confirmed v \<longrightarrow> security_out_time v \<noteq> None" by blast
    then show ?thesis unfolding w by (rule confirmed_row_after)
  next
    assume "visitor_id w = next_rowid d \<and> out_time w = None
            \<and> \<not> security_confirmed w \<and> security_out_time w = None"
    then show ?thesis by simp
  qed
qed

lemma confirmed_has_time_run:
  assumes "\<forall>v \<in> set (visitors d). security_confirmed v \<longrightarrow> security_out_time v \<noteq> None"
  shows "\<forall>w \<in> set (visitors (run as d)).
           security_confirmed w \<longrightarrow> security_out_time w \<noteq> None"
  using assms
proof (induction as arbitrary: d)
  case Nil
  then show ?case by simp
next
  case (Cons a as)
  from Cons.IH [OF confirmed_has_time_handle [OF Cons.prems]] show ?case by simp
qed

lemma confirmed_only_by_checkout:
  assumes "visitor_id v = j" and "\<not> security_confirmed v"
    and "security_confirmed (row_after a v)"
  shows "\<exists>t. a = SecurityCheckout j t"
  using assms by (cases a) (auto split: if_splits)

text \<open>
  C4, as the handlers have it. In every table reached from the empty one, a row with
  \<open>security_confirmed\<close> true has \<open>security_out_time\<close> set. The flag of a row goes from false
  to true only by a security-checkout request for its id, and that request sets the flag
  and the time on the row it finds whatever the row's \<open>out_time\<close> is, which it leaves as
  it was.
\<close>

theorem security_confirmed_only_by_checkout:
  "(\<forall>w \<in> set (visitors (run as empty_db)).
      security_confirmed w \<longrightarrow> security_out_time w \<noteq> None)
   \<and> (sql_get j d = Some v \<and> \<not> security_confirmed v
        \<and> map_option security_confirmed (sql_get j (handle a d)) = Some True
        \<longrightarrow> (\<exists>t. a = SecurityCheckout j t))
   \<and> (sql_get j d = Some v \<longrightarrow>
        sql_get j (db_after (security_checkout j t d))
          = Some (v\<lparr>security_confirmed := True, security_out_time := Some t\<rparr>))"
proof (intro conjI impI)
  have "\<forall>v \<in> set (visitors empty_db). security_confirmed v \<longrightarrow> security_out_time v \<noteq> None"
    by (simp add: empty_db_def)
  then show "\<forall>w \<in> set (visitors (run as empty_db)).
      security_confirmed w \<longrightarrow> security_out_time w \<noteq> None"
    by (rule confirmed_has_time_run)
next
  assume h: "sql_get j d = Some v \<and> \<not> security_confirmed v
        \<and> map_option security_confirmed (sql_get j (handle a d)) = Some True"
  then have g: "sql_get j (handle a d) = Some (row_after a v)"
    using sql_get_handle by blast
  from h have "visitor_id v = j" using sql_get_SomeD by blast
  moreover from h have "\<not> security_confirmed v" by simp
  moreover from h g have "security_confirmed (row_after a v)" by simp
  ultimately show "\<exists>t. a = SecurityCheckout j t"
    by (rule confirmed_only_by_checkout)
next
  assume h: "sql_get j d = Some v"
  then have "visitor_id v = j" by (simp add: sql_get_SomeD)
  with sql_get_handle [OF h, of "SecurityCheckout j t"]
  show "sql_get j (db_after (security_checkout j t d))
          = Some (v\<lparr>security_confirmed := True, security_out_time := Some t\<rparr>)"
    by simp
qed

text \<open>
  Jane registers and security checks her out at ten: the row is reached from the empty
  table, only the checkout turned the flag, and \<open>out_time\<close> is still NULL.
\<close>

theorem security_confirmed_only_by_checkout_witness:
  "map (\<lambda>w. (security_confirmed w, security_out_time w))
      (visitors (run [Register demo_env jane, SecurityCheckout 1 ''2025-01-01T10:00:00.000Z'']
                  empty_db))
     = [(True, Some ''2025-01-01T10:00:00.000Z'')]
   \<and> sql_get 1 jane_registered = Some jane_row \<and> \<not> security_confirmed jane_row
   \<and> map_option security_confirmed
        (sql_get 1 (handle (SecurityCheckout 1 ''2025-01-01T10:00:00.000Z'') jane_registered))
       = Some True
   \<and> sql_get 1 (db_after (security_checkout 1 ''2025-01-01T10:00:00.000Z'' jane_registered))
       = Some (jane_row\<lparr>security_confirmed := True,
                        security_out_time := Some ''2025-01-01T10:00:00.000Z''\<rparr>)
   \<and> out_time (jane_row\<lparr>security_confirmed := True,
                        security_out_time := Some ''2025-01-01T10:00:00.000Z''\<rparr>) = None"
proof -
  have r: "map (\<lambda>w. (security_confirmed w, security_out_time w))
      (visitors (run [Register demo_env jane, SecurityCheckout 1 ''2025-01-01T10:00:00.000Z'']
                  empty_db))
     = [(True, Some ''2025-01-01T10:00:00.000Z'')]"
    by code_simp
  have g: "sql_get 1 jane_registered = Some jane_row"
    by (simp add: sql_get_def jane_registered_def jane_row_def)
  have n: "\<not> security_confirmed jane_row" "out_time jane_row = None"
    by (simp_all add: jane_row_def)
  from security_confirmed_only_by_checkout
         [of "[Register demo_env jane, SecurityCheckout 1 ''2025-01-01T10:00:00.000Z'']"
             1 jane_registered jane_row
             "SecurityCheckout 1 ''2025-01-01T10:00:00.000Z''"
             "''2025-01-01T10:00:00.000Z''"] r g n
  show ?thesis by simp
qed

text \<open>
  C4, as stated, fails: Jane registers and security checks her out before any release.
  The request answers 200 and the row has \<open>security_confirmed\<close> true and \<open>out_time\<close> NULL.
\<close>

theorem security_checkout_before_release:
  "map (\<lambda>w. (security_confirmed w, out_time w))
      (visitors (run [Register demo_env jane, SecurityCheckout 1 ''2025-01-01T10:00:00.000Z'']
                  empty_db))
     = [(True, None)]
   \<and> status (reply (security_checkout 1 ''2025-01-01T10:00:00.000Z''
        (run [Register demo_env jane] empty_db))) = 200"
  by code_simp

section \<open>Listing\<close>

lemma mset_insert_desc: "mset (insert_desc v ws) = add_mset v (mset ws)"
  by (induction ws) simp_all

lemma mset_order_by: "mset (order_by_in_time_desc vs) = mset vs"
  unfolding order_by_in_time_desc_def
  by (induction vs) (simp_all add: mset_insert_desc)

lemma set_insert_desc: "set (insert_desc v ws) = insert v (set ws)"
  by (induction ws) auto

lemma sorted_insert_desc:
  assumes "sorted_wrt (\<lambda>a b. in_time b \<le> in_time a) ws"
  shows "sorted_wrt (\<lambda>a b. in_time b \<le> in_time a) (insert_desc v ws)"
  using assms
proof (induction ws)
  case Nil
  then show ?case by simp
next
  case (Cons w ws)
  show ?case
  proof (cases "in_time w \<le> in_time v")
    case True
    have "\<forall>x \<in> set ws. in_time x \<le> in_time v"
    proof
      fix x assume "x \<in> set ws"
      with Cons.prems have "in_time x \<le> in_time w" by simp
      with True show "in_time x \<le> in_time v" by simp
    qed
    with True Cons.prems show ?thesis by simp
  next
    case False
    then have "in_time v \<le> in_time w" by simp
    with False Cons show ?thesis by (simp add: set_insert_desc)
  qed
qed

lemma sorted_order_by: "sorted_wrt (\<lambda>a b. in_time b \<le> in_time a) (order_by_in_time_desc vs)"
  unfolding order_by_in_time_desc_def
  by (induction vs) (simp_all add: sorted_insert_desc)

lemma mset_list_visitors:
  "mset (list_visitors st d) = mset (filter (status_where st) (visitors d))"
  by (simp add: list_visitors_def mset_order_by)

lemma set_list_visitors:
  "set (list_visitors st d) = {v \<in> set (visitors d). status_where st v}"
proof -
  have "set (list_visitors st d) = set_mset (mset (list_visitors st d))" by simp
  also have "\<dots> = set (filter (status_where st) (visitors d))"
    unfolding mset_list_visitors by simp
  finally show ?thesis by simp
qed

lemma status_where_active: "status_where (Some ''active'') = (\<lambda>v. out_time v = None)"
  by (rule ext) (simp add: status_where_def)

lemma status_where_released:
  "status_where (Some ''released'') = (\<lambda>v. out_time v \<noteq> None \<and> security_confirmed v)"
  by (rule ext) (simp add: status_where_def)

lemma status_where_pending:
  "status_where (Some ''security-pending'')
     = (\<lambda>v. out_time v \<noteq> None \<and> \<not> security_confirmed v)"
  by (rule ext) (simp add: status_where_def)

lemma status_where_none: "status_where None = (\<lambda>v. True)"
  by (rule ext) (simp add: status_where_def)

lemma row_after_in_handle:
  assumes "v \<in> set (visitors d)"
  shows "row_after a v \<in> set (visitors (handle a d))"
proof -
  obtain new where "visitors (handle a d) = map (row_after a) (visitors d) @ new"
    using visitors_handle by blast
  with assms show ?thesis by simp
qed

lemma released_handle:
  assumes ex: "\<exists>v \<in> set (visitors d). visitor_id v = i"
    and out: "\<forall>v \<in> set (visitors d). visitor_id v = i \<longrightarrow> out_time v \<noteq> None"
  shows "(\<exists>w \<in> set (visitors (handle a d)). visitor_id w = i)
       \<and> (\<forall>w \<in> set (visitors (handle a d)). visitor_id w = i \<longrightarrow> out_time w \<noteq> None)"
proof
  from ex obtain v where v: "v \<in> set (visitors d)" "visitor_id v = i" by blast
  from row_after_in_handle [OF v(1), of a] v(2)
  show "\<exists>w \<in> set (visitors (handle a d)). visitor_id w = i"
    by (intro bexI [of _ "row_after a v"]) simp_all
  from next_rowid_fresh [OF v(1)] v(2) have fresh: "i < next_rowid d" by simp
  show "\<forall>w \<in> set (visitors (handle a d)). visitor_id w = i \<longrightarrow> out_time w \<noteq> None"
  proof (intro ballI impI)
    fix w
    assume w: "w \<in> set (visitors (handle a d))" and wi: "visitor_id w = i"
    from rows_handle_cases [OF w] show "out_time w \<noteq> None"
    proof
      assume "\<exists>u \<in> set (visitors d). w = row_after a u"
      then obtain u where u: "u \<in> set (visitors d)" "w = row_after a u" by blast
      with wi have "visitor_id u = i" by simp
      with out u(1) have "out_time u \<noteq> None" by blast
      then show ?thesis unfolding u(2) by (cases a) simp_all
    next
      assume "visitor_id w = next_rowid d \<and> out_time w = None
            \<and> \<not> security_confirmed w \<and> security_out_time w = None"
      with wi fresh show ?thesis by simp
    qed
  qed
qed

lemma released_run:
  assumes "\<exists>v \<in> set (visitors d). visitor_id v = i"
    and "\<forall>v \<in> set (visitors d). visitor_id v = i \<longrightarrow> out_time v \<noteq> None"
  shows "(\<exists>w \<in> set (visitors (run as d)). visitor_id w = i)
       \<and> (\<forall>w \<in> set (visitors (run as d)). visitor_id w = i \<longrightarrow> out_time w \<noteq> None)"
  using assms
proof (induction as arbitrary: d)
  case Nil
  then show ?case by simp
next
  case (Cons a as)
  from released_handle [OF Cons.prems, of a]
  have "\<exists>w \<in> set (visitors (handle a d)). visitor_id w = i"
    and "\<forall>w \<in> set (visitors (handle a d)). visitor_id w = i \<longrightarrow> out_time w \<noteq> None"
    by simp_all
  from Cons.IH [OF this] show ?case by simp
qed

lemma released_after_release:
  assumes "sql_get i d \<noteq> None"
  shows "(\<exists>w \<in> set (visitors (db_after (release i t d))). visitor_id w = i)
       \<and> (\<forall>w \<in> set (visitors (db_after (release i t d))).
             visitor_id w = i \<longrightarrow> out_time w \<noteq> None)"
proof
  from assms obtain v where "sql_get i d = Some v" by blast
  then have v: "v \<in> set (visitors d)" "visitor_id v = i" by (simp_all add: sql_get_SomeD)
  from row_after_in_handle [OF v(1), of "Release i t"] v(2)
  show "\<exists>w \<in> set (visitors (db_after (release i t d))). visitor_id w = i"
    by (intro bexI [of _ "v\<lparr>out_time := Some t\<rparr>"]) simp_all
  have "\<forall>w \<in> set (map (\<lambda>v. if visitor_id v = i then v\<lparr>out_time := Some t\<rparr> else v) vs).
          visitor_id w = i \<longrightarrow> out_time w \<noteq> None" for vs
    by (induction vs) simp_all
  then show "\<forall>w \<in> set (visitors (db_after (release i t d))).
             visitor_id w = i \<longrightarrow> out_time w \<noteq> None"
    by (simp only: db_after_release visitors_sql_update)
qed

text \<open>
  C7. The listing endpoint returns the rows that its filter selects, each as often as the
  table has it, with \<open>in_time\<close> descending: for \<^verbatim>\<open>active\<close> the rows with \<open>out_time\<close> NULL,
  for \<^verbatim>\<open>released\<close> those with \<open>out_time\<close> set and \<open>security_confirmed\<close>, for
  \<^verbatim>\<open>security-pending\<close> those with \<open>out_time\<close> set and \<open>security_confirmed\<close> false, and with
  no filter all rows. After a release request for an id that some row has, and after any
  further requests, the table still has a row with that id, no row with that id is in
  the \<^verbatim>\<open>active\<close> listing, and a row with that id is in the \<^verbatim>\<open>released\<close> listing exactly
  when its \<open>security_confirmed\<close> is true and in the \<^verbatim>\<open>security-pending\<close> listing exactly
  when it is false.
\<close>

theorem list_visitors_filters_and_orders:
  "sorted_wrt (\<lambda>a b. in_time b \<le> in_time a) (list_visitors st d)
   \<and> mset (list_visitors (Some ''active'') d)
       = mset (filter (\<lambda>v. out_time v = None) (visitors d))
   \<and> mset (list_visitors (Some ''released'') d)
       = mset (filter (\<lambda>v. out_time v \<noteq> None \<and> security_confirmed v) (visitors d))
   \<and> mset (list_visitors (Some ''security-pending'') d)
       = mset (filter (\<lambda>v. out_time v \<noteq> None \<and> \<not> security_confirmed v) (visitors d))
   \<and> mset (list_visitors None d) = mset (visitors d)
   \<and> (sql_get i d \<noteq> None \<longrightarrow>
        (\<exists>w \<in> set (visitors (run as (db_after (release i t d)))). visitor_id w = i)
        \<and> (\<forall>w \<in> set (list_visitors (Some ''active'') (run as (db_after (release i t d)))).
              visitor_id w \<noteq> i)
        \<and> (\<forall>w \<in> set (visitors (run as (db_after (release i t d)))).
              visitor_id w = i \<longrightarrow>
                (w \<in> set (list_visitors (Some ''released'') (run as (db_after (release i t d))))
                   \<longleftrightarrow> security_confirmed w)
                \<and> (w \<in> set (list_visitors (Some ''security-pending'')
                                (run as (db_after (release i t d))))
                   \<longleftrightarrow> \<not> security_confirmed w)))"
proof -
  have s: "sorted_wrt (\<lambda>a b. in_time b \<le> in_time a) (list_visitors st d)"
    by (simp add: list_visitors_def sorted_order_by)
  have a: "mset (list_visitors (Some ''active'') d)
       = mset (filter (\<lambda>v. out_time v = None) (visitors d))"
    by (simp only: mset_list_visitors status_where_active)
  have r: "mset (list_visitors (Some ''released'') d)
       = mset (filter (\<lambda>v. out_time v \<noteq> None \<and> security_confirmed v) (visitors d))"
    by (simp only: mset_list_visitors status_where_released)
  have p: "mset (list_visitors (Some ''security-pending'') d)
       = mset (filter (\<lambda>v. out_time v \<noteq> None \<and> \<not> security_confirmed v) (visitors d))"
    by (simp only: mset_list_visitors status_where_pending)
  have n: "mset (list_visitors None d) = mset (visitors d)"
    by (simp add: mset_list_visitors status_where_none)
  have l: "sql_get i d \<noteq> None \<longrightarrow>
        (\<exists>w \<in> set (visitors (run as (db_after (release i t d)))). visitor_id w = i)
        \<and> (\<forall>w \<in> set (list_visitors (Some ''active'') (run as (db_after (release i t d)))).
              visitor_id w \<noteq> i)
        \<and> (\<forall>w \<in> set (visitors (run as (db_after (release i t d)))).
              visitor_id w = i \<longrightarrow>
                (w \<in> set (list_visitors (Some ''released'') (run as (db_after (release i t d))))
                   \<longleftrightarrow> security_confirmed w)
                \<and> (w \<in> set (list_visitors (Some ''security-pending'')
                                (run as (db_after (release i t d))))
                   \<longleftrightarrow> \<not> security_confirmed w))"
  proof
    assume k: "sql_get i d \<noteq> None"
    let ?d = "run as (db_after (release i t d))"
    from released_after_release [OF k, of t]
    have "\<exists>w \<in> set (visitors (db_after (release i t d))). visitor_id w = i"
      and "\<forall>w \<in> set (visitors (db_after (release i t d))).
             visitor_id w = i \<longrightarrow> out_time w \<noteq> None"
      by simp_all
    from released_run [OF this, of as]
    have ex: "\<exists>w \<in> set (visitors ?d). visitor_id w = i"
      and out: "\<forall>w \<in> set (visitors ?d). visitor_id w = i \<longrightarrow> out_time w \<noteq> None"
      by simp_all
    have act: "\<forall>w \<in> set (list_visitors (Some ''active'') ?d). visitor_id w \<noteq> i"
      using out by (auto simp only: set_list_visitors status_where_active)
    have rel: "\<forall>w \<in> set (visitors ?d). visitor_id w = i \<longrightarrow>
                (w \<in> set (list_visitors (Some ''released'') ?d) \<longleftrightarrow> security_confirmed w)
              \<and> (w \<in> set (list_visitors (Some ''security-pending'') ?d)
                   \<longleftrightarrow> \<not> security_confirmed w)"
      using out by (simp add: set_list_visitors status_where_released status_where_pending)
    from ex act rel
    show "(\<exists>w \<in> set (visitors ?d). visitor_id w = i)
        \<and> (\<forall>w \<in> set (list_visitors (Some ''active'') ?d). visitor_id w \<noteq> i)
        \<and> (\<forall>w \<in> set (visitors ?d). visitor_id w = i \<longrightarrow>
                (w \<in> set (list_visitors (Some ''released'') ?d) \<longleftrightarrow> security_confirmed w)
              \<and> (w \<in> set (list_visitors (Some ''security-pending'') ?d)
                   \<longleftrightarrow> \<not> security_confirmed w))"
      by blast
  qed
  from s a r p n l show ?thesis by blast
qed

text \<open>
  Two visitors, at nine and at half past nine. The listing has the later one first.
  After the release of the first and her security checkout, the \<^verbatim>\<open>active\<close> listing has
  the second visitor only and the \<^verbatim>\<open>released\<close> listing has the first.
\<close>

theorem list_visitors_filters_and_orders_witness:
  "sql_get 1 two_visitors \<noteq> None
   \<and> map visitor_id (list_visitors None two_visitors) = [2, 1]
   \<and> map in_time (list_visitors None two_visitors)
       = [''2025-01-01 09:30:00'', ''2025-01-01 09:00:00'']
   \<and> map visitor_id (list_visitors (Some ''active'')
        (run [SecurityCheckout 1 ''2025-01-01T10:05:00.000Z'']
           (db_after (release 1 ''2025-01-01T10:00:00.000Z'' two_visitors)))) = [2]
   \<and> map visitor_id (list_visitors (Some ''released'')
        (run [SecurityCheckout 1 ''2025-01-01T10:05:00.000Z'']
           (db_after (release 1 ''2025-01-01T10:00:00.000Z'' two_visitors)))) = [1]
   \<and> map visitor_id (list_visitors (Some ''security-pending'')
        (db_after (release 1 ''2025-01-01T10:00:00.000Z'' two_visitors))) = [1]
   \<and> (\<exists>w \<in> set (visitors (run [SecurityCheckout 1 ''2025-01-01T10:05:00.000Z'']
           (db_after (release 1 ''2025-01-01T10:00:00.000Z'' two_visitors)))). visitor_id w = 1)"
proof -
  have k: "sql_get 1 two_visitors \<noteq> None"
    by code_simp
  have e1: "map visitor_id (list_visitors None two_visitors) = [2, 1]"
    by code_simp
  have e2: "map in_time (list_visitors None two_visitors)
       = [''2025-01-01 09:30:00'', ''2025-01-01 09:00:00'']"
    by code_simp
  have e3: "map visitor_id (list_visitors (Some ''active'')
        (run [SecurityCheckout 1 ''2025-01-01T10:05:00.000Z'']
           (db_after (release 1 ''2025-01-01T10:00:00.000Z'' two_visitors)))) = [2]"
    by code_simp
  have e4: "map visitor_id (list_visitors (Some ''released'')
        (run [SecurityCheckout 1 ''2025-01-01T10:05:00.000Z'']
           (db_after (release 1 ''2025-01-01T10:00:00.000Z'' two_visitors)))) = [1]"
    by code_simp
  have e5: "map visitor_id (list_visitors (Some ''security-pending'')
        (db_after (release 1 ''2025-01-01T10:00:00.000Z'' two_visitors))) = [1]"
    by code_simp
  from list_visitors_filters_and_orders
         [of _ two_visitors 1 "[SecurityCheckout 1 ''2025-01-01T10:05:00.000Z'']"
             "''2025-01-01T10:00:00.000Z''"] k
  have "\<exists>w \<in> set (visitors (run [SecurityCheckout 1 ''2025-01-01T10:05:00.000Z'']
           (db_after (release 1 ''2025-01-01T10:00:00.000Z'' two_visitors)))). visitor_id w = 1"
    by blast
  with k e1 e2 e3 e4 e5 show ?thesis by blast
qed

end
